theory Spec2Isabelle
  imports Main "HOL-Library.Word" "HOL-Library.Signed_Division" "HOL-Library.Monad_Syntax"
begin

section \<open>Machine integers of the C++ sources\<close>

text \<open>
  The fixed-width integers of the sources are words: \<open>int64_t\<close> and \<open>uint64_t\<close> are both
  \<open>64 word\<close>, read through \<open>sint\<close> where the source's type is signed and through \<open>uint\<close>
  where it is unsigned.  Addition, subtraction and multiplication wrap (two's complement).
  A conversion to a wider type is \<open>scast\<close> from a signed source type (sign extension) and
  \<open>ucast\<close> from an unsigned one; a conversion to a narrower type keeps the low bits.
  \<open>time_t\<close> is the 64-bit signed type.
\<close>

type_synonym int8_t = "8 word"
type_synonym uint8_t = "8 word"
type_synonym int16_t = "16 word"
type_synonym int32_t = "32 word"
type_synonym uint32_t = "32 word"
type_synonym int64_t = "64 word"
type_synonym uint64_t = "64 word"
type_synonym time_t = "64 word"

text \<open>
  The operators \<open>/\<close> and \<open>%\<close> of C++ on signed operands truncate towards zero:
  \<open>sdiv_w\<close> and \<open>smod_w\<close>.  The source's operators have no value when the divisor is
  zero, and none when the quotient does not fit the type (the most negative value divided
  by \<open>-1\<close>): \<open>c_div\<close> and \<open>c_mod\<close> are \<open>None\<close> there.  Where the source divides by a
  literal other than \<open>0\<close> and \<open>-1\<close> the model uses \<open>sdiv_w\<close> and \<open>smod_w\<close> directly.
\<close>

definition sdiv_w :: "'a::len word \<Rightarrow> 'a word \<Rightarrow> 'a word" where
  "sdiv_w a b = word_of_int (sint a sdiv sint b)"

definition smod_w :: "'a::len word \<Rightarrow> 'a word \<Rightarrow> 'a word" where
  "smod_w a b = word_of_int (sint a smod sint b)"

definition div_defined :: "'a::len word \<Rightarrow> 'a word \<Rightarrow> bool" where
  "div_defined a b \<longleftrightarrow> b \<noteq> 0 \<and> \<not> (a = - (2 ^ (LENGTH('a) - 1)) \<and> b = - 1)"

definition c_div :: "'a::len word \<Rightarrow> 'a word \<Rightarrow> 'a word option" where
  "c_div a b = (if div_defined a b then Some (sdiv_w a b) else None)"

definition c_mod :: "'a::len word \<Rightarrow> 'a word \<Rightarrow> 'a word option" where
  "c_mod a b = (if div_defined a b then Some (smod_w a b) else None)"

section \<open>Floor modulo: \<open>BibCpp::unsignedModulo\<close> (y2038Calendar.cpp)\<close>

text \<open>
  The template at \<open>T = int64_t\<close>, \<open>uT = uint64_t\<close>, the instance \<open>unsignedModulo_i64\<close> that
  the converter calls.  The result is the pair (divisor, remainder) that the source writes
  through its two reference parameters.  \<open>(T)modulo\<close> keeps the bits of \<open>modulo\<close>;
  \<open>rem += modulo\<close> adds in the unsigned type and converts back, which is the wrapping sum.
  The parameters \<open>value\<close> and \<open>modulo\<close> are \<open>val\<close> and \<open>modulus\<close> here.
\<close>

definition unsignedModulo_i64 :: "int64_t \<Rightarrow> uint64_t \<Rightarrow> (int64_t \<times> uint64_t) option" where
  "unsignedModulo_i64 val modulus =
     (if modulus = 0 then Some (1, 0)
      else do {
        div0 \<leftarrow> c_div val modulus;
        rem0 \<leftarrow> c_mod val modulus;
        let (div1, rem1) =
              (if div0 <s 0
               then (div0 - 1, if rem0 <s 0 then rem0 + modulus else rem0)
               else (div0, rem0));
        let (div2, rem2) =
              (if div1 = 0 \<and> rem1 <s 0
               then (div1 - 1, rem1 + modulus)
               else (div1, rem1));
        Some (div2, rem2)
      })"

section \<open>Data model (src/cTime.h)\<close>

text \<open>
  \<open>stCalendar\<close> as src/cTime.h declares it, with \<open>timeZone\<close> an \<open>int8_t\<close>, which is how
  y2038Calendar.cpp and src/cTimeStd.cpp use the field.  The fields \<open>dst\<close>, \<open>timeZone\<close>,
  \<open>leapSecond\<close>, \<open>calendarWeek\<close> and \<open>dayInYear\<close> are signed, \<open>year\<close> is signed.
\<close>

record stCalendar =
  year :: int32_t
  month :: uint8_t
  day :: uint8_t
  hour :: uint8_t
  minute :: uint8_t
  second :: uint8_t
  dst :: int8_t
  timeZone :: int8_t
  leapSecond :: int8_t
  subZone :: uint32_t
  picoSeconds :: uint32_t
  dayInWeek :: uint8_t
  calendarWeek :: int8_t
  dayInYear :: int16_t

text \<open>
  \<open>stCalendar_Ini = {0, 0, 0, 0, 0, 0, 0, 0, -1, 0, 0, 0, 0, 0}\<close> (src/cTimeStd.cpp): the
  initialisers follow the declaration order, so the ninth, \<open>-1\<close>, is \<open>leapSecond\<close>.
\<close>

definition stCalendar_Ini :: stCalendar where
  "stCalendar_Ini =
     \<lparr>year = 0, month = 0, day = 0, hour = 0, minute = 0, second = 0, dst = 0, timeZone = 0,
      leapSecond = - 1, subZone = 0, picoSeconds = 0, dayInWeek = 0, calendarWeek = 0,
      dayInYear = 0\<rparr>"

record stDuration =
  days :: uint64_t
  hours :: uint64_t
  minutes :: uint64_t
  seconds :: uint64_t
  sign :: int8_t

definition stDuration_Ini :: stDuration where
  "stDuration_Ini = \<lparr>days = 0, hours = 0, minutes = 0, seconds = 0, sign = 1\<rparr>"

text \<open>\<open>struct tm\<close> of \<open>time.h\<close>; every member is an \<open>int\<close>.\<close>

record tm =
  tm_sec :: int32_t
  tm_min :: int32_t
  tm_hour :: int32_t
  tm_mday :: int32_t
  tm_mon :: int32_t
  tm_year :: int32_t
  tm_wday :: int32_t
  tm_yday :: int32_t
  tm_isdst :: int32_t

text \<open>
  The platform the code runs on: the clock and the calendar routines of \<open>time.h\<close> are not
  code of this repository, so what they answer is a parameter of every function that
  asks them.  \<open>time_now\<close> is \<open>::time(nullptr)\<close>, \<open>localtime_s\<close> the \<open>struct tm\<close> that
  \<open>localtime_s\<close> writes for a \<open>time_t\<close>, \<open>mktime_tm\<close> the normalised \<open>struct tm\<close> that
  \<open>mktime\<close> writes back, and \<open>localTimeZone\<close> what \<open>cTime::localTimeZone()\<close> returns.
\<close>

record platform =
  time_now :: time_t
  localtime_s :: "time_t \<Rightarrow> tm"
  mktime_tm :: "tm \<Rightarrow> tm"
  localTimeZone :: int8_t

text \<open>
  \<open>LibCpp_isLeapYear\<close> (src/cTime.h, line 15), which y2038Calendar.cpp uses under the name
  \<open>BibCpp_isLeapYear\<close>.  The year is an \<open>int32_t\<close>; \<open>%\<close> truncates.
\<close>

definition BibCpp_isLeapYear :: "int32_t \<Rightarrow> bool" where
  "BibCpp_isLeapYear y \<longleftrightarrow>
     (smod_w y 4 = 0 \<and> smod_w y 100 \<noteq> 0) \<or> smod_w y 400 = 0"

text \<open>
  An array read \<open>tbl[i]\<close>: the element when the index is inside the array, \<open>None\<close> when the
  source would read outside it.
\<close>

definition table_at :: "'a list \<Rightarrow> int \<Rightarrow> 'a option" where
  "table_at tbl i = (if 0 \<le> i \<and> i < int (length tbl) then Some (tbl ! nat i) else None)"

section \<open>Constants of y2038Calendar.cpp\<close>

text \<open>
  The macros are untyped in the source (they are \<open>int\<close> expressions, converted to the type
  of the expression they stand in), so they are polymorphic in the width here; the
  \<open>const uint64_t\<close> objects are \<open>uint64_t\<close>.
\<close>

definition BibCpp_SECONDSPERMINUTE :: "'a::len word" where "BibCpp_SECONDSPERMINUTE = 60"
definition BibCpp_MINUTESPERHOUR :: "'a::len word" where "BibCpp_MINUTESPERHOUR = 60"
definition BibCpp_HOURSPERDAY :: "'a::len word" where "BibCpp_HOURSPERDAY = 24"
definition BibCpp_DAYSPERNORMALYEAR :: "'a::len word" where "BibCpp_DAYSPERNORMALYEAR = 365"
definition BibCpp_LEAPDAY :: "'a::len word" where "BibCpp_LEAPDAY = 1"
definition BibCpp_DAYSPERWEEK :: "'a::len word" where "BibCpp_DAYSPERWEEK = 7"

definition BibCpp_TIME_T_2001 :: int64_t where "BibCpp_TIME_T_2001 = 978307200"
definition BibCpp_TIME_T_2030 :: int32_t where "BibCpp_TIME_T_2030 = 1893456000"
definition BibCpp_TIME_T_2030_2001 :: int64_t where
  "BibCpp_TIME_T_2030_2001 = scast BibCpp_TIME_T_2030 - BibCpp_TIME_T_2001"

definition BibCpp_DAYSPER4YEARS :: "'a::len word" where
  "BibCpp_DAYSPER4YEARS = 4 * BibCpp_DAYSPERNORMALYEAR + BibCpp_LEAPDAY"
definition BibCpp_DAYSPER100YEARS :: "'a::len word" where
  "BibCpp_DAYSPER100YEARS = 25 * BibCpp_DAYSPER4YEARS - BibCpp_LEAPDAY"
definition BibCpp_DAYSPER400YEARS :: "'a::len word" where
  "BibCpp_DAYSPER400YEARS = 4 * BibCpp_DAYSPER100YEARS + BibCpp_LEAPDAY"

definition BibCpp_SECONDSPERHOUR :: uint64_t where
  "BibCpp_SECONDSPERHOUR = BibCpp_MINUTESPERHOUR * BibCpp_SECONDSPERMINUTE"
definition BibCpp_SECONDSPERDAY :: uint64_t where
  "BibCpp_SECONDSPERDAY = BibCpp_HOURSPERDAY * BibCpp_SECONDSPERHOUR"
definition BibCpp_SECONDSPERWEEK :: uint64_t where
  "BibCpp_SECONDSPERWEEK = BibCpp_DAYSPERWEEK * BibCpp_SECONDSPERDAY"
definition BibCpp_SECONDSPERNORMALYEAR :: uint64_t where
  "BibCpp_SECONDSPERNORMALYEAR = BibCpp_DAYSPERNORMALYEAR * BibCpp_SECONDSPERDAY"
definition BibCpp_SECONDSPER4YEARS :: uint64_t where
  "BibCpp_SECONDSPER4YEARS = BibCpp_DAYSPER4YEARS * BibCpp_SECONDSPERDAY"
definition BibCpp_SECONDSPER100YEARS :: uint64_t where
  "BibCpp_SECONDSPER100YEARS = BibCpp_DAYSPER100YEARS * BibCpp_SECONDSPERDAY"
definition BibCpp_SECONDSPER400YEARS :: uint64_t where
  "BibCpp_SECONDSPER400YEARS = BibCpp_DAYSPER400YEARS * BibCpp_SECONDSPERDAY"

definition BibCpp_SECONDSOFDAY :: uint64_t where
  "BibCpp_SECONDSOFDAY = BibCpp_HOURSPERDAY * BibCpp_SECONDSPERHOUR"
definition BibCpp_SECONDSTILLFEB :: uint64_t where
  "BibCpp_SECONDSTILLFEB = 31 * BibCpp_SECONDSOFDAY"
definition BibCpp_SECONDSTILLMAR :: uint64_t where
  "BibCpp_SECONDSTILLMAR = 28 * BibCpp_SECONDSOFDAY + BibCpp_SECONDSTILLFEB"
definition BibCpp_SECONDSTILLAPR :: uint64_t where
  "BibCpp_SECONDSTILLAPR = 31 * BibCpp_SECONDSOFDAY + BibCpp_SECONDSTILLMAR"
definition BibCpp_SECONDSTILLMAY :: uint64_t where
  "BibCpp_SECONDSTILLMAY = 30 * BibCpp_SECONDSOFDAY + BibCpp_SECONDSTILLAPR"
definition BibCpp_SECONDSTILLJUN :: uint64_t where
  "BibCpp_SECONDSTILLJUN = 31 * BibCpp_SECONDSOFDAY + BibCpp_SECONDSTILLMAY"
definition BibCpp_SECONDSTILLJUL :: uint64_t where
  "BibCpp_SECONDSTILLJUL = 30 * BibCpp_SECONDSOFDAY + BibCpp_SECONDSTILLJUN"
definition BibCpp_SECONDSTILLAUG :: uint64_t where
  "BibCpp_SECONDSTILLAUG = 31 * BibCpp_SECONDSOFDAY + BibCpp_SECONDSTILLJUL"
definition BibCpp_SECONDSTILLSEP :: uint64_t where
  "BibCpp_SECONDSTILLSEP = 31 * BibCpp_SECONDSOFDAY + BibCpp_SECONDSTILLAUG"
definition BibCpp_SECONDSTILLOKT :: uint64_t where
  "BibCpp_SECONDSTILLOKT = 30 * BibCpp_SECONDSOFDAY + BibCpp_SECONDSTILLSEP"
definition BibCpp_SECONDSTILLNOV :: uint64_t where
  "BibCpp_SECONDSTILLNOV = 31 * BibCpp_SECONDSOFDAY + BibCpp_SECONDSTILLOKT"
definition BibCpp_SECONDSTILLDEC :: uint64_t where
  "BibCpp_SECONDSTILLDEC = 30 * BibCpp_SECONDSOFDAY + BibCpp_SECONDSTILLNOV"

text \<open>\<open>BibCpp_SECONDSTILLMONTH[il]\<close>: the row for a normal year and the row for a leap year.\<close>

definition BibCpp_SECONDSTILLMONTH :: "bool \<Rightarrow> uint64_t list" where
  "BibCpp_SECONDSTILLMONTH il =
     (if il
      then [0, BibCpp_SECONDSTILLFEB,
            BibCpp_SECONDSTILLMAR + BibCpp_SECONDSOFDAY, BibCpp_SECONDSTILLAPR + BibCpp_SECONDSOFDAY,
            BibCpp_SECONDSTILLMAY + BibCpp_SECONDSOFDAY, BibCpp_SECONDSTILLJUN + BibCpp_SECONDSOFDAY,
            BibCpp_SECONDSTILLJUL + BibCpp_SECONDSOFDAY, BibCpp_SECONDSTILLAUG + BibCpp_SECONDSOFDAY,
            BibCpp_SECONDSTILLSEP + BibCpp_SECONDSOFDAY, BibCpp_SECONDSTILLOKT + BibCpp_SECONDSOFDAY,
            BibCpp_SECONDSTILLNOV + BibCpp_SECONDSOFDAY, BibCpp_SECONDSTILLDEC + BibCpp_SECONDSOFDAY]
      else [0, BibCpp_SECONDSTILLFEB, BibCpp_SECONDSTILLMAR, BibCpp_SECONDSTILLAPR,
            BibCpp_SECONDSTILLMAY, BibCpp_SECONDSTILLJUN, BibCpp_SECONDSTILLJUL,
            BibCpp_SECONDSTILLAUG, BibCpp_SECONDSTILLSEP, BibCpp_SECONDSTILLOKT,
            BibCpp_SECONDSTILLNOV, BibCpp_SECONDSTILLDEC])"

definition DAYSOFMONTH :: "bool \<Rightarrow> uint8_t list" where
  "DAYSOFMONTH il =
     (if il
      then [0, 31, 29, 31, 30, 31, 30, 31, 31, 30, 31, 30, 31]
      else [0, 31, 28, 31, 30, 31, 30, 31, 31, 30, 31, 30, 31])"

section \<open>The overflow-safe converter (y2038Calendar.cpp)\<close>

text \<open>
  The loop \<open>for (m=11; m>=0; m--) if (block1 >= BibCpp_SECONDSTILLMONTH[il][m]) break;\<close>,
  started at \<open>m = n\<close>: the value of \<open>m\<close> after it, \<open>-1\<close> when no entry made it stop.
\<close>

fun month_loop :: "uint64_t list \<Rightarrow> uint64_t \<Rightarrow> nat \<Rightarrow> int" where
  "month_loop tbl block1 0 = (if tbl ! 0 \<le> block1 then 0 else - 1)"
| "month_loop tbl block1 (Suc n) =
     (if tbl ! Suc n \<le> block1 then int (Suc n) else month_loop tbl block1 n)"

text \<open>
  \<open>BibCpp::y2038Calendar(unixSeconds, timeZone, dst)\<close>.  The pointer \<open>timeZone\<close> is
  \<open>timeZone_p\<close>: \<open>None\<close> for the null pointer, \<open>Some z\<close> for a pointer to \<open>z\<close>.
  The result is \<open>None\<close> where the source would divide without a value or read outside a
  table.
\<close>

definition y2038Calendar :: "platform \<Rightarrow> time_t \<Rightarrow> int8_t option \<Rightarrow> int8_t \<Rightarrow> stCalendar option" where
  "y2038Calendar P unixSeconds timeZone_p dst_arg =
     (let calendar = stCalendar_Ini;
          time32 = (ucast unixSeconds :: int32_t) - BibCpp_TIME_T_2030;
          time64 = (scast time32 :: int64_t) + BibCpp_TIME_T_2030_2001;
          localZone = localTimeZone P;
          tmCalendar = localtime_s P (time_now P);
          calendar = calendar\<lparr>dst := dst_arg\<rparr>;
          (relZone, calendar) =
            (case timeZone_p of
               None \<Rightarrow>
                 let dst_loc = (ucast (tm_isdst tmCalendar) :: int8_t)
                 in (if 0 <s dst_loc then localZone + 1 else localZone,
                     calendar\<lparr>timeZone := localZone\<rparr>)
             | Some z \<Rightarrow>
                 (if 0 <s dst_arg then z - 1 else z, calendar\<lparr>timeZone := z\<rparr>));
          time64 = time64 + (scast relZone :: int64_t) * BibCpp_SECONDSPERHOUR
      in do {
        (k, block400) \<leftarrow> unsignedModulo_i64 time64 BibCpp_SECONDSPER400YEARS;
        (j, block100) \<leftarrow> unsignedModulo_i64 block400 BibCpp_SECONDSPER100YEARS;
        (i, block4) \<leftarrow> unsignedModulo_i64 block100 BibCpp_SECONDSPER4YEARS;
        (h, block1) \<leftarrow> unsignedModulo_i64 block4 BibCpp_SECONDSPERNORMALYEAR;
        let daysBeginSince2001 =
              k * BibCpp_DAYSPER400YEARS
              + scast ((ucast j :: int32_t) * BibCpp_DAYSPER100YEARS)
              + i * BibCpp_DAYSPER4YEARS
              + scast ((ucast h :: int32_t) * BibCpp_DAYSPERNORMALYEAR);
        let k = k + 5;
        let h = h + 1;
        let year_v = (ucast k :: int32_t) * 400 + (ucast j :: int32_t) * 100
                     + (ucast i :: int32_t) * 4 + (ucast h :: int32_t);
        let calendar = calendar\<lparr>year := year_v\<rparr>;
        let il = BibCpp_isLeapYear year_v;
        let m = month_loop (BibCpp_SECONDSTILLMONTH il) block1 11;
        tillMonth \<leftarrow> table_at (BibCpp_SECONDSTILLMONTH il) m;
        let blockM = block1 - tillMonth;
        let calendar = calendar\<lparr>month := word_of_int (m + 1)\<rparr>;
        (d, blockD) \<leftarrow> unsignedModulo_i64 blockM BibCpp_SECONDSPERDAY;
        let calendar = calendar\<lparr>day := ucast (d + 1)\<rparr>;
        (hour_v, blockHr) \<leftarrow> unsignedModulo_i64 blockD BibCpp_SECONDSPERHOUR;
        let calendar = calendar\<lparr>hour := ucast hour_v\<rparr>;
        (minute_v, second_v) \<leftarrow> unsignedModulo_i64 blockHr BibCpp_SECONDSPERMINUTE;
        let calendar = calendar\<lparr>minute := ucast minute_v, second := ucast second_v\<rparr>;
        (dayInYear_v, block) \<leftarrow> unsignedModulo_i64 block1 BibCpp_SECONDSPERDAY;
        let calendar = calendar\<lparr>dayInYear := ucast (dayInYear_v + 1)\<rparr>;
        (dWeeks2001, blockW) \<leftarrow> unsignedModulo_i64 time64 BibCpp_SECONDSPERWEEK;
        let yWeeks2001 = sdiv_w daysBeginSince2001 7;
        let calendar = calendar\<lparr>calendarWeek := ucast (dWeeks2001 - yWeeks2001 + 1)\<rparr>;
        (dw, blockX) \<leftarrow> unsignedModulo_i64 blockW BibCpp_SECONDSPERDAY;
        let calendar = calendar\<lparr>dayInWeek := ucast (dw + 1)\<rparr>;
        Some calendar
      })"

text \<open>
  \<open>BibCpp::y2038Set(calendar)\<close>.  \<open>calendar.month-1\<close>, \<open>calendar.day - 1\<close> are computed in
  \<open>int\<close> from the unsigned fields; \<open>relZone\<close> is an \<open>int8_t\<close>.
\<close>

definition y2038Set :: "stCalendar \<Rightarrow> time_t option" where
  "y2038Set calendar =
     do {
       let time64 = (0 :: int64_t);
       let y = (scast (year calendar - 2001) :: int64_t);
       (k, rem400) \<leftarrow> unsignedModulo_i64 y 400;
       (j, rem100) \<leftarrow> unsignedModulo_i64 rem400 100;
       (i, h) \<leftarrow> unsignedModulo_i64 rem100 4;
       let time64 = time64 + k * BibCpp_SECONDSPER400YEARS;
       let time64 = time64 + j * BibCpp_SECONDSPER100YEARS;
       let time64 = time64 + i * BibCpp_SECONDSPER4YEARS;
       let time64 = time64 + h * BibCpp_SECONDSPERNORMALYEAR;
       let il = BibCpp_isLeapYear (year calendar);
       tillMonth \<leftarrow> table_at (BibCpp_SECONDSTILLMONTH il) (uint (month calendar) - 1);
       let time64 = time64 + tillMonth;
       let time64 = time64 + (ucast (day calendar) - 1) * BibCpp_SECONDSPERDAY;
       let time64 = time64 + ucast (hour calendar) * BibCpp_SECONDSPERHOUR;
       let time64 = time64 + ucast (minute calendar) * BibCpp_SECONDSPERMINUTE;
       let time64 = time64 + ucast (second calendar);
       let relZone = timeZone calendar;
       let relZone = (if 0 <s dst calendar then relZone + 1 else relZone);
       let time64 = time64 - (scast relZone :: int64_t) * BibCpp_SECONDSPERHOUR;
       let time64 = time64 - BibCpp_TIME_T_2030_2001;
       let time32 = (ucast time64 :: int32_t);
       let time32 = time32 + BibCpp_TIME_T_2030;
       Some (scast time32 :: time_t)
     }"

text \<open>
  \<open>setTimeZone(pCalendar, destZone)\<close>: the calendar the source leaves behind the pointer.
  \<open>diffHours\<close>, \<open>hour\<close>, \<open>day\<close> and \<open>month\<close> are \<open>int8_t\<close> locals, compared as signed
  values; \<open>DAYSOFMONTH[il][month]\<close> is read at the signed value of \<open>month\<close>.
\<close>

definition setTimeZone :: "stCalendar \<Rightarrow> uint8_t \<Rightarrow> stCalendar option" where
  "setTimeZone pCalendar destZone =
     (let il = BibCpp_isLeapYear (year pCalendar);
          diffHours = (destZone - timeZone pCalendar :: int8_t);
          diffHours = (if 0 <s dst pCalendar then diffHours + 1 else diffHours)
      in if 0 <s diffHours then
           (let hour_v = (hour pCalendar + diffHours :: int8_t)
            in if 23 <s hour_v then
                 (let pCalendar = pCalendar\<lparr>hour := hour_v - 24\<rparr>;
                      day_v = (day pCalendar + 1 :: int8_t);
                      month_v = (month pCalendar :: int8_t)
                  in do {
                    dom \<leftarrow> table_at (DAYSOFMONTH il) (sint month_v);
                    if uint dom < sint day_v then
                      (let day_v = (1 :: int8_t);
                           month_v = month_v + 1
                       in if 12 <s month_v
                          then Some (pCalendar\<lparr>day := day_v, month := 1, year := year pCalendar + 1,
                                                dst := 0\<rparr>)
                          else Some (pCalendar\<lparr>day := day_v, month := month_v, dst := 0\<rparr>))
                    else Some (pCalendar\<lparr>day := day_v, dst := 0\<rparr>)
                  })
               else Some (pCalendar\<lparr>hour := hour_v, dst := 0\<rparr>))
         else if diffHours <s 0 then
           (let hour_v = (hour pCalendar + diffHours :: int8_t)
            in if hour_v <s 0 then
                 (let pCalendar = pCalendar\<lparr>hour := hour_v + 24\<rparr>;
                      day_v = (day pCalendar - 1 :: int8_t);
                      month_v = (month pCalendar :: int8_t)
                  in if day_v <s 0 then
                       (let month_v = month_v - 1
                        in if month_v <s 1 then
                             do {
                               dom \<leftarrow> table_at (DAYSOFMONTH il) 12;
                               Some (pCalendar\<lparr>day := dom, month := 12, year := year pCalendar - 1,
                                                dst := 0\<rparr>)
                             }
                           else
                             do {
                               dom \<leftarrow> table_at (DAYSOFMONTH il) (sint month_v);
                               Some (pCalendar\<lparr>day := dom, month := month_v, dst := 0\<rparr>)
                             })
                     else Some (pCalendar\<lparr>day := day_v, dst := 0\<rparr>))
               else Some (pCalendar\<lparr>hour := hour_v, dst := 0\<rparr>))
         else Some pCalendar)"

section \<open>The native-range converter and durations (src/cTimeStd.cpp)\<close>

text \<open>
  A \<open>cTime\<close> object holds one member, \<open>_time\<close>, so it is its \<open>time_t\<close>; \<open>cTime::set(time_t)\<close>
  stores its argument and \<open>time()\<close> reads it back.
\<close>

definition set_time :: "time_t \<Rightarrow> time_t" where
  "set_time unixTime = unixTime"

text \<open>
  \<open>cTime::calendar(pRequestedTimeZone)\<close> on the object whose \<open>_time\<close> is \<open>t\<close>.  The pointer
  is \<open>None\<close> when null.  \<open>relDestZone - relZone\<close> is computed in \<open>int\<close> from two \<open>int8_t\<close>.
\<close>

definition calendar :: "platform \<Rightarrow> time_t \<Rightarrow> int8_t option \<Rightarrow> stCalendar" where
  "calendar P t pRequestedTimeZone =
     (let zone = localTimeZone P;
          lt = localtime_s P t;
          cal = stCalendar_Ini;
          (lt, cal) =
            (case pRequestedTimeZone of
               Some req \<Rightarrow>
                 (let relZone = (if 0 <s tm_isdst lt then zone + 1 else zone);
                      relDestZone =
                        (if req = 0x80
                         then (if 0 <s tm_isdst lt then zone + 1 else zone)
                         else req);
                      lt = lt\<lparr>tm_hour := tm_hour lt + ((scast relDestZone :: int32_t) - scast relZone)\<rparr>;
                      lt = mktime_tm P lt;
                      lt = lt\<lparr>tm_isdst := - 1\<rparr>
                  in (lt, cal\<lparr>timeZone := relDestZone\<rparr>))
             | None \<Rightarrow> (lt, cal\<lparr>timeZone := zone\<rparr>));
          cal = cal\<lparr>second := ucast (tm_sec lt), minute := ucast (tm_min lt),
                     hour := ucast (tm_hour lt), day := ucast (tm_mday lt),
                     month := ucast (tm_mon lt + 1), year := tm_year lt + 1900,
                     dst := ucast (tm_isdst lt), dayInWeek := ucast (tm_wday lt)\<rparr>;
          cal = (if dayInWeek cal = 0 then cal\<lparr>dayInWeek := 7\<rparr> else cal)
      in cal\<lparr>dayInYear := ucast (tm_yday lt + 1)\<rparr>)"

text \<open>
  \<open>cTime::duration()\<close> on the object whose \<open>_time\<close> is \<open>t\<close>.  \<open>value = -value\<close> wraps at
  the most negative value.  The divisors are literals.
\<close>

definition duration :: "time_t \<Rightarrow> stDuration" where
  "duration t =
     (let val = t;
          (sign_v, val) = (if val <s 0 then (- 1, - val) else (1, val));
          days_v = sdiv_w val 86400;
          val = smod_w val 86400;
          hours_v = sdiv_w val 3600;
          val = smod_w val 3600;
          minutes_v = sdiv_w val 60;
          seconds_v = smod_w val 60
      in \<lparr>days = days_v, hours = hours_v, minutes = minutes_v, seconds = seconds_v,
          sign = sign_v\<rparr>)"

text \<open>\<open>cTime::set(stDuration)\<close>: the sum is computed in \<open>uint64_t\<close> and converted to \<open>time_t\<close>.\<close>

definition set_duration :: "stDuration \<Rightarrow> time_t" where
  "set_duration d =
     (let val = days d * 86400 + hours d * 3600 + minutes d * 60 + seconds d;
          val = (if sign d <s 0 then - val else val)
      in set_time val)"

definition UTCdeviation :: "stCalendar \<Rightarrow> int8_t" where
  "UTCdeviation cal = (if 0 <s dst cal then timeZone cal + 1 else timeZone cal)"

section \<open>The text codec (src/cTimeStd.cpp)\<close>

text \<open>
  The C library's formatted output and input, as far as the formats of the source use
  them.  \<open>%d\<close> prints a signed decimal; \<open>%02d\<close> pads it with zeros, after the sign, to
  two characters.
\<close>

fun digits :: "nat \<Rightarrow> string" where
  "digits n =
     (if n < 10 then [''0123456789'' ! n]
      else digits (n div 10) @ [''0123456789'' ! (n mod 10)])"

declare digits.simps [simp del]

definition print_d :: "nat \<Rightarrow> int \<Rightarrow> string" where
  "print_d width v =
     (let ds = digits (nat \<bar>v\<bar>);
          sg = (if v < 0 then [CHR ''-''] else [])
      in sg @ replicate (width - length sg - length ds) (CHR ''0'') @ ds)"

text \<open>
  \<open>sprintf_s(buffer, n, ...)\<close> stores the text when it fits the buffer with its
  terminator; otherwise the library's invalid-parameter handler ends the program:
  \<open>None\<close>.
\<close>

definition sprintf_s :: "nat \<Rightarrow> string \<Rightarrow> string option" where
  "sprintf_s n txt = (if length txt < n then Some txt else None)"

text \<open>
  \<open>cTime::toString(stDuration)\<close>, format \<open>D%d#%02d:%02d:%02d\<close>; each member is narrowed to
  \<open>int\<close> first.
\<close>

definition toString_duration :: "stDuration \<Rightarrow> string option" where
  "toString_duration d =
     (let days_v = (ucast (days d) :: int32_t);
          days_v = (if sign d <s 0 then - days_v else days_v)
      in sprintf_s 32
           ([CHR ''D''] @ print_d 0 (sint days_v) @ [CHR ''#'']
            @ print_d 2 (sint (ucast (hours d) :: int32_t)) @ [CHR '':'']
            @ print_d 2 (sint (ucast (minutes d) :: int32_t)) @ [CHR '':'']
            @ print_d 2 (sint (ucast (seconds d) :: int32_t))))"

text \<open>
  Formatted input.  A format is a list of directives: a literal character, \<open>%d\<close>, or a
  suppressed string of at most \<open>n\<close> characters.  \<open>sscanf\<close> returns the values converted
  before the first directive that fails to match, in order; the arguments beyond them
  keep what they held (\<open>arg\<close>).  \<open>%d\<close> skips white space, takes an optional sign and at
  least one digit, and narrows the number to \<open>int\<close>.
\<close>

datatype directive = Lit char | Conv_d | Skip_s nat

definition isspace_c :: "char \<Rightarrow> bool" where
  "isspace_c c \<longleftrightarrow> c \<in> set [CHR '' '', CHR 0x09, CHR 0x0A, CHR 0x0B, CHR 0x0C, CHR 0x0D]"

definition isdigit_c :: "char \<Rightarrow> bool" where
  "isdigit_c c \<longleftrightarrow> c \<in> set ''0123456789''"

fun scan_digits :: "string \<Rightarrow> int \<Rightarrow> int \<times> string" where
  "scan_digits [] acc = (acc, [])"
| "scan_digits (c # cs) acc =
     (if isdigit_c c then scan_digits cs (10 * acc + (int (of_char c) - 48)) else (acc, c # cs))"

definition scan_d :: "string \<Rightarrow> (int \<times> string) option" where
  "scan_d s =
     (let s1 = dropWhile isspace_c s;
          (neg, s2) =
            (case s1 of
               [] \<Rightarrow> (False, s1)
             | c # cs \<Rightarrow>
                 if c = CHR ''-'' then (True, cs)
                 else if c = CHR ''+'' then (False, cs)
                 else (False, s1))
      in case s2 of
           [] \<Rightarrow> None
         | c # cs \<Rightarrow>
             if isdigit_c c
             then (let (v, rest) = scan_digits s2 0 in Some (if neg then - v else v, rest))
             else None)"

fun sscanf :: "directive list \<Rightarrow> string \<Rightarrow> int32_t list" where
  "sscanf [] s = []"
| "sscanf (Lit c # fs) s =
     (case s of [] \<Rightarrow> [] | x # xs \<Rightarrow> if x = c then sscanf fs xs else [])"
| "sscanf (Conv_d # fs) s =
     (case scan_d s of None \<Rightarrow> [] | Some (v, rest) \<Rightarrow> word_of_int v # sscanf fs rest)"
| "sscanf (Skip_s n # fs) s =
     (let s1 = dropWhile isspace_c s;
          tok = takeWhile (\<lambda>c. \<not> isspace_c c) (take n s1)
      in if tok = [] then [] else sscanf fs (drop (length tok) s1))"

definition arg :: "int32_t list \<Rightarrow> nat \<Rightarrow> int32_t \<Rightarrow> int32_t" where
  "arg vals n held = (if n < length vals then vals ! n else held)"

text \<open>
  \<open>s.c_str()\<close> is the text up to the first NUL; \<open>s[i]\<close> and \<open>s.c_str()[i]\<close> read the
  buffer, which holds a NUL at index \<open>length s\<close> and nothing the program may read beyond.
\<close>

definition c_str :: "string \<Rightarrow> string" where
  "c_str s = takeWhile (\<lambda>c. c \<noteq> CHR 0x00) s"

definition c_str_at :: "string \<Rightarrow> nat \<Rightarrow> char option" where
  "c_str_at s i =
     (if i < length s then Some (s ! i) else if i = length s then Some (CHR 0x00) else None)"

text \<open>\<open>cTime::fromDurationString\<close>, format \<open>D%d#%d:%d:%d\<close>.\<close>

definition fromDurationString :: "string \<Rightarrow> stDuration" where
  "fromDurationString durationString =
     (let duration_v = stDuration_Ini
      in if c_str_at durationString 0 \<noteq> Some (CHR ''D'') then duration_v
         else
           (let vals = sscanf [Lit (CHR ''D''), Conv_d, Lit (CHR ''#''), Conv_d, Lit (CHR '':''),
                               Conv_d, Lit (CHR '':''), Conv_d] (c_str durationString);
                days_v = arg vals 0 0;
                hours_v = arg vals 1 0;
                minutes_v = arg vals 2 0;
                seconds_v = arg vals 3 0;
                (sign_v, days_v) = (if days_v <s 0 then (- 1, - days_v) else (1, days_v))
            in \<lparr>days = scast days_v, hours = scast hours_v, minutes = scast minutes_v,
                seconds = scast seconds_v, sign = sign_v\<rparr>))"

text \<open>
  \<open>cTime::fromString\<close> of src/cTimeStd.cpp, format \<open>%d-%d-%d#%d:%d:%d#%3*s#%d:00\<close>.  The
  directive \<open>%3*s\<close> puts the width before the star; \<open>lenient\<close> says whether the library
  takes it as a suppressed string of width 3 or stops the scan there.  The three
  characters of the \<open>dst\<close> token are read from the buffer at 20, 21 and 22; the result is
  \<open>None\<close> when that read is outside the buffer.  The two \<open>if\<close> statements on the token
  are in sequence, the \<open>else\<close> belongs to the second.
\<close>

definition fromString :: "bool \<Rightarrow> string \<Rightarrow> stCalendar option" where
  "fromString lenient dateString =
     (let cal = stCalendar_Ini
      in if c_str_at dateString 0 = Some (CHR ''D'') then Some cal
         else
           (let vals = sscanf ([Conv_d, Lit (CHR ''-''), Conv_d, Lit (CHR ''-''), Conv_d,
                                Lit (CHR ''#''), Conv_d, Lit (CHR '':''), Conv_d, Lit (CHR '':''),
                                Conv_d, Lit (CHR ''#'')]
                               @ (if lenient
                                  then [Skip_s 3, Lit (CHR ''#''), Conv_d, Lit (CHR '':''),
                                        Lit (CHR ''0''), Lit (CHR ''0'')]
                                  else []))
                              (c_str dateString);
                year_v = arg vals 0 0;
                month_v = arg vals 1 0;
                day_v = arg vals 2 0;
                hour_v = arg vals 3 0;
                minute_v = arg vals 4 0;
                second_v = arg vals 5 0;
                zone = arg vals 6 0
            in do {
              d0 \<leftarrow> c_str_at dateString 20;
              d1 \<leftarrow> c_str_at dateString 21;
              d2 \<leftarrow> c_str_at dateString 22;
              let dst_tok = c_str [d0, d1, d2];
              let cal = (if dst_tok = ''STD'' then cal\<lparr>dst := 0\<rparr> else cal);
              let cal = (if dst_tok = ''DST'' then cal\<lparr>dst := 1\<rparr> else cal\<lparr>dst := - 1\<rparr>);
              Some (cal\<lparr>year := year_v, month := ucast month_v, day := ucast day_v,
                        hour := ucast hour_v, minute := ucast minute_v, second := ucast second_v,
                        timeZone := ucast zone\<rparr>)
            }))"

section \<open>The calendar parser of src/LibCpp/Time/cTimeStd.cpp\<close>

text \<open>
  src/LibCpp/Time/cTime.h declares \<open>stCalendar\<close> with a \<open>stTimeZone\<close> member; the record
  is \<open>stCalendar_LibCpp\<close> here and its members carry the prefix \<open>cal_\<close>.  \<open>stTimeZone\<close>
  is declared in LibOb_strptime.h, which is not among the sources; its two members are
  taken from their uses (\<open>timeZone.hours\<close>, \<open>timeZone.minutes\<close>, \<open>{INT8_INVALID, 0}\<close>).
\<close>

record stTimeZone =
  tz_hours :: int8_t
  tz_minutes :: uint8_t

record stCalendar_LibCpp =
  cal_year :: int32_t
  cal_month :: uint8_t
  cal_day :: uint8_t
  cal_hour :: uint8_t
  cal_minute :: uint8_t
  cal_second :: uint8_t
  cal_dst :: int8_t
  cal_timeZone :: stTimeZone
  cal_picoSeconds :: uint32_t
  cal_dayInYear :: "16 word"
  cal_dayInWeek :: uint8_t
  cal_calendarWeek :: uint8_t
  cal_leapSecond :: uint8_t
  cal_padding1 :: int8_t
  cal_padding2 :: int16_t

text \<open>
  What LibOb_strptime.h and its implementation provide and the sources do not hold: the
  \<open>*_INVALID\<close> macros (each at the type of the member it initialises), \<open>tm_Invalid\<close>,
  \<open>stTimeZone_Invalid\<close>, the parser \<open>LibOb_strptime\<close> (the \<open>struct tm\<close> and zone it
  leaves behind its two pointers) and \<open>LibOb_localTimeZone\<close> (the zone it returns and the
  \<open>dst\<close> it writes).  They are parameters.
\<close>

record LibOb =
  INT32_INVALID :: int32_t
  UINT8_INVALID :: uint8_t
  INT8_INVALID :: int8_t
  UINT16_INVALID :: "16 word"
  INT16_INVALID :: int16_t
  INT_INVALID :: int32_t
  tm_Invalid :: tm
  stTimeZone_Invalid :: stTimeZone
  LibOb_strptime :: "string \<Rightarrow> string \<Rightarrow> tm \<Rightarrow> stTimeZone \<Rightarrow> tm \<times> stTimeZone"
  LibOb_localTimeZone :: "stTimeZone \<times> int8_t"

definition stCalendar_Invalid :: "LibOb \<Rightarrow> stCalendar_LibCpp" where
  "stCalendar_Invalid L =
     \<lparr>cal_year = INT32_INVALID L, cal_month = UINT8_INVALID L, cal_day = UINT8_INVALID L,
      cal_hour = UINT8_INVALID L, cal_minute = UINT8_INVALID L, cal_second = UINT8_INVALID L,
      cal_dst = INT8_INVALID L,
      cal_timeZone = \<lparr>tz_hours = INT8_INVALID L, tz_minutes = 0\<rparr>,
      cal_picoSeconds = 0, cal_dayInYear = UINT16_INVALID L, cal_dayInWeek = UINT8_INVALID L,
      cal_calendarWeek = UINT8_INVALID L, cal_leapSecond = UINT8_INVALID L,
      cal_padding1 = INT8_INVALID L, cal_padding2 = INT16_INVALID L\<rparr>"

text \<open>\<open>cTime::toCalendar(tmCalendar, pTimeZone)\<close>; the pointer is \<open>None\<close> when null.\<close>

definition toCalendar :: "LibOb \<Rightarrow> tm \<Rightarrow> stTimeZone option \<Rightarrow> stCalendar_LibCpp" where
  "toCalendar L tmCalendar pTimeZone =
     (let cal = stCalendar_Invalid L;
          cal = (if tm_year tmCalendar \<noteq> INT_INVALID L
                 then cal\<lparr>cal_year := tm_year tmCalendar + 1900\<rparr> else cal);
          cal = (if tm_mon tmCalendar \<noteq> INT_INVALID L
                 then cal\<lparr>cal_month := ucast (tm_mon tmCalendar + 1)\<rparr> else cal);
          cal = (if tm_mday tmCalendar \<noteq> INT_INVALID L
                 then cal\<lparr>cal_day := ucast (tm_mday tmCalendar)\<rparr> else cal);
          cal = (if tm_hour tmCalendar \<noteq> INT_INVALID L
                 then cal\<lparr>cal_hour := ucast (tm_hour tmCalendar)\<rparr> else cal);
          cal = (if tm_min tmCalendar \<noteq> INT_INVALID L
                 then cal\<lparr>cal_minute := ucast (tm_min tmCalendar)\<rparr> else cal);
          cal = (if tm_sec tmCalendar \<noteq> INT_INVALID L
                 then cal\<lparr>cal_second := ucast (tm_sec tmCalendar)\<rparr> else cal);
          cal = (if tm_isdst tmCalendar \<noteq> INT_INVALID L
                 then cal\<lparr>cal_dst := ucast (tm_isdst tmCalendar)\<rparr> else cal);
          cal = (if tm_wday tmCalendar \<noteq> INT_INVALID L
                 then (let cal = cal\<lparr>cal_dayInWeek := ucast (tm_wday tmCalendar)\<rparr>
                       in if cal_dayInWeek cal = 0 then cal\<lparr>cal_dayInWeek := 7\<rparr> else cal)
                 else cal);
          cal = (if tm_year tmCalendar \<noteq> INT_INVALID L
                 then cal\<lparr>cal_dayInYear := ucast (tm_yday tmCalendar + 1)\<rparr> else cal)
      in case pTimeZone of
           Some z \<Rightarrow> if tz_hours z \<noteq> INT8_INVALID L then cal\<lparr>cal_timeZone := z\<rparr> else cal
         | None \<Rightarrow>
             cal\<lparr>cal_timeZone := fst (LibOb_localTimeZone L),
                  cal_dst := snd (LibOb_localTimeZone L)\<rparr>)"

text \<open>\<open>cTime::fromString(dateString, format)\<close> of src/LibCpp/Time/cTimeStd.cpp.\<close>

definition fromString_LibCpp :: "LibOb \<Rightarrow> string \<Rightarrow> string \<Rightarrow> stCalendar_LibCpp" where
  "fromString_LibCpp L dateString format =
     (let tmCal = tm_Invalid L;
          zone = stTimeZone_Invalid L
      in if c_str_at dateString 0 = Some (CHR ''D'') then stCalendar_Invalid L
         else
           (let (tmCal, zone) = LibOb_strptime L (c_str dateString) (c_str format) tmCal zone
            in toCalendar L tmCal (Some zone)))"

section \<open>Values the properties are stated with\<close>

text \<open>
  The elapsed seconds a duration stands for, as the data model of the specification gives
  them: the sign times the sum of the four magnitudes, in the integers.
\<close>

definition represented_seconds :: "stDuration \<Rightarrow> int" where
  "represented_seconds d =
     sint (sign d)
     * (uint (days d) * 86400 + uint (hours d) * 3600 + uint (minutes d) * 60 + uint (seconds d))"

text \<open>
  A host in UTC without daylight saving whose clock reads \<open>978307200\<close>: \<open>localtime_s\<close>
  answers Monday, 2001-01-01 00:00:00, for that value, and \<open>mktime\<close> leaves a normalised
  \<open>struct tm\<close> as it is.
\<close>

definition platform_utc_2001 :: platform where
  "platform_utc_2001 =
     \<lparr>time_now = 978307200,
      localtime_s = (\<lambda>t. \<lparr>tm_sec = 0, tm_min = 0, tm_hour = 0, tm_mday = 1, tm_mon = 0,
                            tm_year = 101, tm_wday = 1, tm_yday = 0, tm_isdst = 0\<rparr>),
      mktime_tm = (\<lambda>t. t),
      localTimeZone = 0\<rparr>"





text \<open>
  One choice of what LibOb_strptime.h provides, to state closed instances with: a parser
  that stores nothing, and sentinels at the most negative or the largest value of each
  type.  No property depends on this choice.
\<close>

definition LibOb_sample :: LibOb where
  "LibOb_sample =
     \<lparr>INT32_INVALID = 0x80000000, UINT8_INVALID = 0xFF, INT8_INVALID = 0x80,
      UINT16_INVALID = 0xFFFF, INT16_INVALID = 0x8000, INT_INVALID = 0x80000000,
      tm_Invalid = \<lparr>tm_sec = 0x80000000, tm_min = 0x80000000, tm_hour = 0x80000000,
                     tm_mday = 0x80000000, tm_mon = 0x80000000, tm_year = 0x80000000,
                     tm_wday = 0x80000000, tm_yday = 0x80000000, tm_isdst = 0x80000000\<rparr>,
      stTimeZone_Invalid = \<lparr>tz_hours = 0x80, tz_minutes = 0\<rparr>,
      LibOb_strptime = (\<lambda>s f t z. (t, z)),
      LibOb_localTimeZone = (\<lparr>tz_hours = 0, tz_minutes = 0\<rparr>, 0)\<rparr>"

section \<open>Properties\<close>

subsection \<open>Words and integers\<close>

lemma sint_of_int_64: "- (2 ^ 63) \<le> x \<Longrightarrow> x < 2 ^ 63 \<Longrightarrow> sint (word_of_int x :: 64 word) = x"
  by (simp add: sint_sbintrunc' signed_take_bit_int_eq_self)

lemma uint_of_int_64: "0 \<le> x \<Longrightarrow> x < 2 ^ 64 \<Longrightarrow> uint (word_of_int x :: 64 word) = x"
  by (simp add: uint_word_of_int)

lemma sint_range_64: "- (2 ^ 63) \<le> sint (w :: 64 word) \<and> sint w < 2 ^ 63"
  using sint_ge [of w] sint_lt [of w] by simp

lemma sdiv_nonneg: "0 \<le> a \<Longrightarrow> 0 < b \<Longrightarrow> (a :: int) sdiv b = a div b"
  by (simp add: signed_divide_int_def sgn_if)

lemma smod_nonneg: "0 \<le> a \<Longrightarrow> 0 < b \<Longrightarrow> (a :: int) smod b = a mod b"
  by (simp add: signed_modulo_int_def sgn_if)

lemma div_le_self_int: "0 \<le> a \<Longrightarrow> 0 < b \<Longrightarrow> (a :: int) div b \<le> a"
proof -
  assume a: "0 \<le> a" and b: "0 < b"
  have q: "0 \<le> a div b" using a b by (simp add: pos_imp_zdiv_nonneg_iff)
  have "a div b * 1 \<le> a div b * b" using q b by (intro mult_left_mono) auto
  moreover have "a div b * b + a mod b = a" by simp
  moreover have "0 \<le> a mod b" using b by simp
  ultimately show ?thesis by linarith
qed

subsection \<open>Floor modulo\<close>

lemma unsignedModulo_i64_nonneg:
  assumes v: "0 \<le> sint v" and m: "0 < sint m"
  shows "unsignedModulo_i64 v m
           = Some (word_of_int (sint v div sint m), word_of_int (sint v mod sint m))"
proof -
  have m0: "m \<noteq> 0" using m by auto
  have vmin: "v \<noteq> - (2 ^ 63)"
  proof
    assume "v = - (2 ^ 63)"
    then have "sint v = - (2 ^ 63)" by simp
    with v show False by simp
  qed
  have rng: "sint v < 2 ^ 63" using sint_range_64 [of v] by simp
  have q0: "0 \<le> sint v div sint m" using v m by (simp add: pos_imp_zdiv_nonneg_iff)
  have q1: "sint v div sint m \<le> sint v" using v m by (rule div_le_self_int)
  have r0: "0 \<le> sint v mod sint m" using m by simp
  have r1: "sint v mod sint m < sint m" using m by simp
  have mr: "sint m < 2 ^ 63" using sint_range_64 [of m] by simp
  have sq: "sint (word_of_int (sint v div sint m) :: 64 word) = sint v div sint m"
    using q0 q1 rng by (intro sint_of_int_64) auto
  have sr: "sint (word_of_int (sint v mod sint m) :: 64 word) = sint v mod sint m"
    using r0 r1 mr by (intro sint_of_int_64) auto
  have d: "c_div v m = Some (word_of_int (sint v div sint m))"
    using m0 vmin v m by (simp add: c_div_def div_defined_def sdiv_w_def sdiv_nonneg)
  have r: "c_mod v m = Some (word_of_int (sint v mod sint m))"
    using m0 vmin v m by (simp add: c_mod_def div_defined_def smod_w_def smod_nonneg)
  show ?thesis
    using m0 q0 r0 by (simp add: unsignedModulo_i64_def d r word_sless_alt sq sr)
qed


lemma sdiv_neg: "a < 0 \<Longrightarrow> 0 < b \<Longrightarrow> (a :: int) sdiv b = - ((- a) div b)"
  by (simp add: signed_divide_int_def sgn_if)

lemma smod_neg: "a < 0 \<Longrightarrow> 0 < b \<Longrightarrow> (a :: int) smod b = - ((- a) mod b)"
  by (simp add: signed_modulo_int_def sgn_if)

lemma word_of_int_ne_0_64: "0 < x \<Longrightarrow> x < 2 ^ 64 \<Longrightarrow> (word_of_int x :: 64 word) \<noteq> 0"
  by (simp add: word_of_int_eq_0_iff zdvd_not_zless)

lemma len64: "LENGTH(64) = 64"
  by simp

lemma unsignedModulo_i64_neg:
  assumes v: "sint v < 0" and m: "0 < sint m"
  shows "unsignedModulo_i64 v m
           = Some (if sint m dvd sint v
                   then (word_of_int (sint v div sint m - 1), 0)
                   else (word_of_int (sint v div sint m), word_of_int (sint v mod sint m)))"
proof -
  define a where "a = - sint v"
  define b where "b = sint m"
  define q where "q = a div b"
  define r where "r = a mod b"
  have a0: "0 < a" and a1: "a \<le> 2 ^ 63"
    using v sint_range_64 [of v] by (auto simp: a_def)
  have b0: "0 < b" and b1: "b < 2 ^ 63"
    using m sint_range_64 [of m] by (auto simp: b_def)
  have q0: "0 \<le> q" using a0 b0 by (simp add: q_def pos_imp_zdiv_nonneg_iff)
  have q1: "q \<le> a" using a0 b0 div_le_self_int [of a b] by (simp add: q_def)
  have r0: "0 \<le> r" and r1: "r < b" using b0 by (simp_all add: r_def)
  have aqr: "a = q * b + r" by (simp add: q_def r_def)
  have m0: "m \<noteq> 0" using m by auto
  have mn1: "m \<noteq> - 1" using m by auto
  have mw: "m = word_of_int b" by (simp add: b_def)
  have d: "c_div v m = Some (word_of_int (- q))"
    using m0 mn1 v m by (simp add: c_div_def div_defined_def sdiv_w_def sdiv_neg a_def b_def q_def)
  have rr: "c_mod v m = Some (word_of_int (- r))"
    using m0 mn1 v m by (simp add: c_mod_def div_defined_def smod_w_def smod_neg a_def b_def r_def)
  have sq: "sint (word_of_int (- q) :: 64 word) = - q"
    using q0 q1 a1 by (intro sint_of_int_64) auto
  have sr: "sint (word_of_int (- r) :: 64 word) = - r"
    using r0 r1 b1 by (intro sint_of_int_64) auto
  have sv: "sint v = - a" by (simp add: a_def)
  have bd: "sint m = b" by (simp add: b_def)
  have sq': "sint (- (word_of_int q :: 64 word)) = - q" using sq by simp
  have sr': "sint (- (word_of_int r :: 64 word)) = - r" using sr by simp
  have dvd_iff: "b dvd a \<longleftrightarrow> r = 0"
    by (simp add: r_def mod_eq_0_iff_dvd)
  have fdiv: "(- a) div b = (if r = 0 then - q else - q - 1)"
    using b0 zdiv_zminus1_eq_if [of b a] by (simp add: q_def r_def)
  have fmod: "(- a) mod b = (if r = 0 then 0 else b - r)"
    using b0 zmod_zminus1_eq_if [of a b] by (simp add: q_def r_def)
  have e1: "(word_of_int (- q) - 1 :: 64 word) = word_of_int (- q - 1)"
    by (simp add: wi_hom_syms)
  have e2: "(word_of_int (- r) + m :: 64 word) = word_of_int (b - r)"
    by (simp add: mw wi_hom_syms)
  have e3: "(0 - 1 :: 64 word) = word_of_int (- 1)"
    by simp
  show ?thesis
  proof (cases "0 < q")
    case True
    have ne: "(word_of_int (- q) - 1 :: 64 word) \<noteq> 0"
    proof
      assume "word_of_int (- q) - 1 = (0 :: 64 word)"
      then have "(word_of_int (- (q + 1)) :: 64 word) = 0" by (simp add: wi_hom_syms)
      then have "(2 ^ 64 :: int) dvd - (q + 1)" by (simp only: word_of_int_eq_0_iff len64)
      then have "(2 ^ 64 :: int) dvd q + 1" by (simp only: dvd_minus_iff)
      then show False using q0 q1 a1 zdvd_not_zless [of "q + 1" "2 ^ 64"] by auto
    qed
    show ?thesis
    proof (cases "r = 0")
      case r: True
      have lhs: "unsignedModulo_i64 v m = Some (word_of_int (- q) - 1, 0)"
        using True r ne m0 by (simp add: unsignedModulo_i64_def d rr word_sless_alt sq sq')
      have rhs: "(if sint m dvd sint v
                   then (word_of_int (sint v div sint m - 1), 0)
                   else (word_of_int (sint v div sint m), word_of_int (sint v mod sint m)))
                 = (word_of_int (- q) - 1 :: 64 word, 0 :: 64 word)"
        using r by (simp add: sv bd dvd_iff fdiv e1)
      show ?thesis unfolding lhs rhs ..
    next
      case r: False
      then have rp: "0 < r" using r0 by simp
      have lhs: "unsignedModulo_i64 v m = Some (word_of_int (- q) - 1, word_of_int (- r) + m)"
        using True rp ne m0 by (simp add: unsignedModulo_i64_def d rr word_sless_alt sq sr sq' sr')
      have rhs: "(if sint m dvd sint v
                   then (word_of_int (sint v div sint m - 1), 0)
                   else (word_of_int (sint v div sint m), word_of_int (sint v mod sint m)))
                 = (word_of_int (- q) - 1 :: 64 word, word_of_int (- r) + m)"
        using r by (simp add: sv bd dvd_iff fdiv fmod e1 e2 mw [symmetric])
      show ?thesis unfolding lhs rhs ..
    qed
  next
    case False
    then have qz: "q = 0" using q0 by simp
    then have ra: "r = a" using aqr by simp
    then have rp: "0 < r" using a0 by simp
    have lhs: "unsignedModulo_i64 v m = Some (0 - 1, word_of_int (- r) + m)"
      using qz rp m0 by (simp add: unsignedModulo_i64_def d rr word_sless_alt sr sr')
    have rhs: "(if sint m dvd sint v
                 then (word_of_int (sint v div sint m - 1), 0)
                 else (word_of_int (sint v div sint m), word_of_int (sint v mod sint m)))
               = (0 - 1 :: 64 word, word_of_int (- r) + m)"
      using rp qz by (simp add: sv bd dvd_iff fdiv fmod e2 mw [symmetric])
    show ?thesis unfolding lhs rhs ..
  qed
qed

lemma unsignedModulo_i64_zero: "unsignedModulo_i64 v 0 = Some (1, 0)"
  by (simp add: unsignedModulo_i64_def)

lemma unsignedModulo_i64_None_iff:
  "unsignedModulo_i64 v m = None \<longleftrightarrow> v = - (2 ^ 63) \<and> m = - 1"
  by (auto simp add: unsignedModulo_i64_def c_div_def c_mod_def div_defined_def Let_def
      split: if_splits prod.splits Option.bind_splits)

lemma unsignedModulo_i64_rem:
  assumes m: "0 < sint m" and u: "unsignedModulo_i64 v m = Some (d, r)"
  shows "0 \<le> sint r \<and> sint r < sint m"
proof -
  have mr: "sint m < 2 ^ 63" using sint_range_64 [of m] by simp
  have md: "sint (word_of_int (sint v mod sint m) :: 64 word) = sint v mod sint m"
    using m mr by (intro sint_of_int_64) (auto intro: order.strict_trans [OF pos_mod_bound] order_trans [of _ 0])
  show ?thesis
  proof (cases "0 \<le> sint v")
    case True
    from unsignedModulo_i64_nonneg [OF True m] u
    have "r = word_of_int (sint v mod sint m)" by simp
    then show ?thesis using md m by simp
  next
    case False
    then have "sint v < 0" by simp
    from unsignedModulo_i64_neg [OF this m] u
    have "r = 0 \<or> r = word_of_int (sint v mod sint m)" by (auto split: if_splits)
    then show ?thesis using md m by auto
  qed
qed


subsection \<open>Evaluating the converter\<close>


lemma consts_vals:
  "BibCpp_SECONDSPERMINUTE = 60" "BibCpp_DAYSPERNORMALYEAR = 365"
  "BibCpp_DAYSPER4YEARS = 1461" "BibCpp_DAYSPER100YEARS = 36524" "BibCpp_DAYSPER400YEARS = 146097"
  "BibCpp_SECONDSPERHOUR = 3600" "BibCpp_SECONDSPERDAY = 86400" "BibCpp_SECONDSPERWEEK = 604800"
  "BibCpp_SECONDSPERNORMALYEAR = 31536000" "BibCpp_SECONDSPER4YEARS = 126230400"
  "BibCpp_SECONDSPER100YEARS = 3155673600" "BibCpp_SECONDSPER400YEARS = 12622780800"
  "BibCpp_TIME_T_2030 = 1893456000" "BibCpp_TIME_T_2030_2001 = 915148800"
  by (simp_all add: BibCpp_SECONDSPERMINUTE_def BibCpp_MINUTESPERHOUR_def BibCpp_HOURSPERDAY_def
      BibCpp_DAYSPERNORMALYEAR_def BibCpp_LEAPDAY_def BibCpp_DAYSPERWEEK_def BibCpp_TIME_T_2001_def
      BibCpp_TIME_T_2030_def BibCpp_TIME_T_2030_2001_def BibCpp_DAYSPER4YEARS_def
      BibCpp_DAYSPER100YEARS_def BibCpp_DAYSPER400YEARS_def BibCpp_SECONDSPERHOUR_def
      BibCpp_SECONDSPERDAY_def BibCpp_SECONDSPERWEEK_def BibCpp_SECONDSPERNORMALYEAR_def
      BibCpp_SECONDSPER4YEARS_def BibCpp_SECONDSPER100YEARS_def BibCpp_SECONDSPER400YEARS_def)

lemma table_vals:
  "BibCpp_SECONDSTILLMONTH False =
     [0, 2678400, 5097600, 7776000, 10368000, 13046400, 15638400, 18316800, 20995200,
      23587200, 26265600, 28857600]"
  "BibCpp_SECONDSTILLMONTH True =
     [0, 2678400, 5184000, 7862400, 10454400, 13132800, 15724800, 18403200, 21081600,
      23673600, 26352000, 28944000]"
  by (simp_all add: BibCpp_SECONDSTILLMONTH_def BibCpp_SECONDSOFDAY_def BibCpp_HOURSPERDAY_def
      BibCpp_SECONDSPERHOUR_def BibCpp_MINUTESPERHOUR_def BibCpp_SECONDSPERMINUTE_def
      BibCpp_SECONDSTILLFEB_def BibCpp_SECONDSTILLMAR_def
      BibCpp_SECONDSTILLAPR_def BibCpp_SECONDSTILLMAY_def BibCpp_SECONDSTILLJUN_def
      BibCpp_SECONDSTILLJUL_def BibCpp_SECONDSTILLAUG_def BibCpp_SECONDSTILLSEP_def
      BibCpp_SECONDSTILLOKT_def BibCpp_SECONDSTILLNOV_def BibCpp_SECONDSTILLDEC_def)

lemma month_loop_numeral:
  "month_loop tbl b (numeral k) =
     (if tbl ! numeral k \<le> b then numeral k else month_loop tbl b (pred_numeral k))"
proof -
  have "month_loop tbl b (Suc (pred_numeral k)) =
     (if tbl ! Suc (pred_numeral k) \<le> b then int (Suc (pred_numeral k))
      else month_loop tbl b (pred_numeral k))"
    by simp
  moreover have "Suc (pred_numeral k) = numeral k" by (simp add: numeral_eq_Suc)
  ultimately show ?thesis by (metis of_nat_numeral)
qed

lemmas y2038_eval =
  y2038Calendar_def y2038Set_def stCalendar_Ini_def consts_vals table_vals unsignedModulo_i64_def
  c_div_def c_mod_def div_defined_def sdiv_w_def smod_w_def word_sless_alt BibCpp_isLeapYear_def
  table_at_def month_loop_numeral

subsection \<open>Durations\<close>

lemma sdiv_w_nonneg:
  assumes "0 \<le> sint (v :: 64 word)" "0 < sint m"
  shows "sdiv_w v m = word_of_int (sint v div sint m)"
  using assms by (simp add: sdiv_w_def sdiv_nonneg)

lemma smod_w_nonneg:
  assumes "0 \<le> sint (v :: 64 word)" "0 < sint m"
  shows "smod_w v m = word_of_int (sint v mod sint m)"
  using assms by (simp add: smod_w_def smod_nonneg)

lemma sint_abs_64:
  assumes "t \<noteq> - (2 ^ 63)"
  shows "sint (if t <s 0 then - t else t :: 64 word) = \<bar>sint t\<bar>"
proof -
  have ne: "sint t \<noteq> - (2 ^ 63)"
  proof
    assume "sint t = - (2 ^ 63)"
    then have "word_of_int (sint t) = (word_of_int (- (2 ^ 63)) :: 64 word)" by simp
    then have "t = - (2 ^ 63)" by simp
    with assms show False by simp
  qed
  have rng: "- (2 ^ 63) < sint t" "sint t < 2 ^ 63"
    using sint_range_64 [of t] ne by auto
  have "sint (- t) = - sint t"
    using rng by (simp add: sint_word_minus signed_take_bit_int_eq_self)
  then show ?thesis by (simp add: word_sless_alt)
qed

lemma decompose_nonneg:
  fixes v :: "64 word"
  assumes v0: "0 \<le> sint v"
  shows "sdiv_w v 86400 = word_of_int (sint v div 86400)"
    and "sdiv_w (smod_w v 86400) 3600 = word_of_int (sint v mod 86400 div 3600)"
    and "sdiv_w (smod_w (smod_w v 86400) 3600) 60 = word_of_int (sint v mod 86400 mod 3600 div 60)"
    and "smod_w (smod_w (smod_w v 86400) 3600) 60 = word_of_int (sint v mod 86400 mod 3600 mod 60)"
proof -
  show "sdiv_w v 86400 = word_of_int (sint v div 86400)"
    using v0 by (simp add: sdiv_w_nonneg)
  define v1 :: "64 word" where "v1 = smod_w v 86400"
  have v1: "v1 = word_of_int (sint v mod 86400)"
    unfolding v1_def using v0 by (simp add: smod_w_nonneg)
  have sv1: "sint v1 = sint v mod 86400"
    unfolding v1 by (rule sint_of_int_64) (simp_all add: order.strict_trans [OF pos_mod_bound])
  show "sdiv_w (smod_w v 86400) 3600 = word_of_int (sint v mod 86400 div 3600)"
    using sv1 by (simp add: sdiv_w_nonneg v1_def [symmetric])
  define v2 :: "64 word" where "v2 = smod_w v1 3600"
  have v2: "v2 = word_of_int (sint v mod 86400 mod 3600)"
    unfolding v2_def using sv1 by (simp add: smod_w_nonneg)
  have sv2: "sint v2 = sint v mod 86400 mod 3600"
    unfolding v2 by (rule sint_of_int_64) (simp_all add: order.strict_trans [OF pos_mod_bound])
  show "sdiv_w (smod_w (smod_w v 86400) 3600) 60 = word_of_int (sint v mod 86400 mod 3600 div 60)"
    using sv2 by (simp add: sdiv_w_nonneg v1_def [symmetric] v2_def [symmetric])
  show "smod_w (smod_w (smod_w v 86400) 3600) 60 = word_of_int (sint v mod 86400 mod 3600 mod 60)"
    using sv2 by (simp add: smod_w_nonneg v1_def [symmetric] v2_def [symmetric])
qed

lemma duration_decomposes:
  assumes "t \<noteq> - (2 ^ 63)"
  shows "duration t =
           \<lparr>days = word_of_int (\<bar>sint t\<bar> div 86400),
            hours = word_of_int (\<bar>sint t\<bar> mod 86400 div 3600),
            minutes = word_of_int (\<bar>sint t\<bar> mod 86400 mod 3600 div 60),
            seconds = word_of_int (\<bar>sint t\<bar> mod 86400 mod 3600 mod 60),
            sign = (if sint t < 0 then - 1 else 1)\<rparr>"
proof (cases "sint t < 0")
  case True
  have sv: "sint (- t) = \<bar>sint t\<bar>"
    using sint_abs_64 [OF assms] True by (simp add: word_sless_alt)
  then have v0: "0 \<le> sint (- t)" by simp
  show ?thesis
    using True by (simp add: duration_def word_sless_alt decompose_nonneg [OF v0] sv)
next
  case False
  then have v0: "0 \<le> sint t" by simp
  show ?thesis
    using False by (simp add: duration_def word_sless_alt decompose_nonneg [OF v0])
qed

lemma word_of_int_sint_64: "word_of_int (sint (w :: 64 word)) = w"
  by simp

lemma recompose_int: "(a :: int) div 86400 * 86400 + a mod 86400 div 3600 * 3600
   + a mod 86400 mod 3600 div 60 * 60 + a mod 86400 mod 3600 mod 60 = a"
proof -
  have "a mod 86400 mod 3600 div 60 * 60 + a mod 86400 mod 3600 mod 60 = a mod 86400 mod 3600" by simp
  moreover have "a mod 86400 div 3600 * 3600 + a mod 86400 mod 3600 = a mod 86400" by simp
  moreover have "a div 86400 * 86400 + a mod 86400 = a" by simp
  ultimately show ?thesis by linarith
qed

lemma abs_sint_range_64:
  assumes "t \<noteq> - (2 ^ 63)"
  shows "\<bar>sint (t :: 64 word)\<bar> < 2 ^ 63"
proof -
  have ne: "sint t \<noteq> - (2 ^ 63)"
  proof
    assume "sint t = - (2 ^ 63)"
    then have "word_of_int (sint t) = (word_of_int (- (2 ^ 63)) :: 64 word)" by simp
    then have "t = - (2 ^ 63)" by simp
    with assms show False by simp
  qed
  then show ?thesis using sint_range_64 [of t] by auto
qed

lemma uint_of_small: "0 \<le> x \<Longrightarrow> x \<le> y \<Longrightarrow> y < 2 ^ 63 \<Longrightarrow> uint (word_of_int x :: 64 word) = x"
  by (rule uint_of_int_64) auto

lemma duration_represents:
  assumes "t \<noteq> - (2 ^ 63)"
  shows "represented_seconds (duration t) = sint t"
proof -
  define a where "a = \<bar>sint t\<bar>"
  have a0: "0 \<le> a" and a1: "a < 2 ^ 63"
    using abs_sint_range_64 [OF assms] by (auto simp: a_def)
  have m1: "0 \<le> a mod 86400" "a mod 86400 < 2 ^ 63"
    by (simp_all add: order.strict_trans [OF pos_mod_bound])
  have m2: "0 \<le> a mod 86400 mod 3600" "a mod 86400 mod 3600 < 2 ^ 63"
    by (simp_all add: order.strict_trans [OF pos_mod_bound])
  have m3: "0 \<le> a mod 86400 mod 3600 mod 60" "a mod 86400 mod 3600 mod 60 < 2 ^ 63"
    by (simp_all add: order.strict_trans [OF pos_mod_bound])
  have u1: "uint (word_of_int (a div 86400) :: 64 word) = a div 86400"
    using a0 a1 div_le_self_int [of a 86400]
    by (intro uint_of_small [where y = a]) (auto simp: pos_imp_zdiv_nonneg_iff)
  have u2: "uint (word_of_int (a mod 86400 div 3600) :: 64 word) = a mod 86400 div 3600"
    using m1 div_le_self_int [of "a mod 86400" 3600]
    by (intro uint_of_small [where y = "a mod 86400"]) (auto simp: pos_imp_zdiv_nonneg_iff)
  have u3: "uint (word_of_int (a mod 86400 mod 3600 div 60) :: 64 word) = a mod 86400 mod 3600 div 60"
    using m2 div_le_self_int [of "a mod 86400 mod 3600" 60]
    by (intro uint_of_small [where y = "a mod 86400 mod 3600"]) (auto simp: pos_imp_zdiv_nonneg_iff)
  have u4: "uint (word_of_int (a mod 86400 mod 3600 mod 60) :: 64 word) = a mod 86400 mod 3600 mod 60"
    using m3 by (intro uint_of_small [where y = "a mod 86400 mod 3600 mod 60"]) auto
  have "represented_seconds (duration t) = (if sint t < 0 then - 1 else 1) * a"
    by (simp add: duration_decomposes [OF assms] represented_seconds_def a_def [symmetric]
        u1 u2 u3 u4 recompose_int)
  then show ?thesis by (simp add: a_def)
qed

lemma set_duration_duration:
  assumes "t \<noteq> - (2 ^ 63)"
  shows "set_duration (duration t) = t"
proof -
  define a where "a = \<bar>sint t\<bar>"
  have w: "(word_of_int (a div 86400) :: 64 word) * 86400 + word_of_int (a mod 86400 div 3600) * 3600
        + word_of_int (a mod 86400 mod 3600 div 60) * 60 + word_of_int (a mod 86400 mod 3600 mod 60)
        = word_of_int (a div 86400 * 86400 + a mod 86400 div 3600 * 3600
             + a mod 86400 mod 3600 div 60 * 60 + a mod 86400 mod 3600 mod 60)"
    by (simp only: wi_hom_syms word_of_int_numeral)
  have w': "(word_of_int (a div 86400) :: 64 word) * 86400 + word_of_int (a mod 86400 div 3600) * 3600
        + word_of_int (a mod 86400 mod 3600 div 60) * 60 + word_of_int (a mod 86400 mod 3600 mod 60)
        = word_of_int a"
    by (simp only: w recompose_int)
  show ?thesis
  proof (cases "sint t < 0")
    case True
    then have "word_of_int a = - t" by (simp add: a_def wi_hom_syms)
    with True show ?thesis
      using w' by (simp add: set_duration_def set_time_def duration_decomposes [OF assms] a_def [symmetric] word_sless_alt)
  next
    case False
    then have "word_of_int a = t" by (simp add: a_def)
    with False show ?thesis
      using w' by (simp add: set_duration_def set_time_def duration_decomposes [OF assms] a_def [symmetric] word_sless_alt)
  qed
qed

subsection \<open>February 29 through both converters\<close>

lemma unsignedModulo_i64_floor:
  assumes m: "0 < m" "m < 2 ^ 63" and a: "- (2 ^ 63) \<le> a" "a < 2 ^ 63"
    and r: "0 \<le> r" "r < m" and aq: "a = q * m + r" and s: "0 \<le> a \<or> 0 < r"
  shows "unsignedModulo_i64 (word_of_int a) (word_of_int m) = Some (word_of_int q, word_of_int r)"
proof -
  have sa: "sint (word_of_int a :: 64 word) = a" using a by (rule sint_of_int_64)
  have sm: "sint (word_of_int m :: 64 word) = m" using m by (intro sint_of_int_64) auto
  have dq: "a div m = q" using aq r by (simp add: int_div_pos_eq mult.commute)
  have mr: "a mod m = r" using aq r by (simp add: int_mod_pos_eq mult.commute)
  show ?thesis
  proof (cases "0 \<le> a")
    case True
    show ?thesis
      using unsignedModulo_i64_nonneg [of "word_of_int a" "word_of_int m"] True m
      by (simp add: sa sm dq mr)
  next
    case False
    then have neg: "a < 0" and rp: "0 < r" using s by auto
    have nd: "\<not> m dvd a" using mr rp by (auto simp: dvd_eq_mod_eq_0)
    show ?thesis
      using unsignedModulo_i64_neg [of "word_of_int a" "word_of_int m"] neg m nd
      by (simp add: sa sm dq mr)
  qed
qed

lemma unsignedModulo_i64_Some:
  assumes "m \<noteq> - 1"
  shows "\<exists>d r. unsignedModulo_i64 v m = Some (d, r)"
proof -
  have "unsignedModulo_i64 v m \<noteq> None"
    using assms by (simp add: unsignedModulo_i64_None_iff)
  then show ?thesis by auto
qed

lemma y2038Calendar_SomeI:
  assumes t: "scast ((ucast e :: 32 word) - BibCpp_TIME_T_2030) + BibCpp_TIME_T_2030_2001
               + (scast (if 0 <s d then z - 1 else z) :: 64 word) * BibCpp_SECONDSPERHOUR = t64"
    and u1: "unsignedModulo_i64 t64 BibCpp_SECONDSPER400YEARS = Some (k, b400)"
    and u2: "unsignedModulo_i64 b400 BibCpp_SECONDSPER100YEARS = Some (j, b100)"
    and u3: "unsignedModulo_i64 b100 BibCpp_SECONDSPER4YEARS = Some (i, b4)"
    and u4: "unsignedModulo_i64 b4 BibCpp_SECONDSPERNORMALYEAR = Some (h, b1)"
    and yv: "ucast (k + 5) * 400 + ucast j * 100 + ucast i * 4 + ucast (h + 1) = yv"
    and ml: "month_loop (BibCpp_SECONDSTILLMONTH (BibCpp_isLeapYear yv)) b1 11 = m"
    and ta: "table_at (BibCpp_SECONDSTILLMONTH (BibCpp_isLeapYear yv)) m = Some tillMonth"
    and u5: "unsignedModulo_i64 (b1 - tillMonth) BibCpp_SECONDSPERDAY = Some (dd, bD)"
    and u6: "unsignedModulo_i64 bD BibCpp_SECONDSPERHOUR = Some (hv, bH)"
    and u7: "unsignedModulo_i64 bH BibCpp_SECONDSPERMINUTE = Some (mv, sv)"
  shows "\<exists>c'. y2038Calendar P e (Some z) d = Some c' \<and> year c' = yv
           \<and> month c' = word_of_int (m + 1) \<and> day c' = ucast (dd + 1) \<and> hour c' = ucast hv
           \<and> minute c' = ucast mv \<and> second c' = ucast sv \<and> dst c' = d \<and> timeZone c' = z"
proof -
  obtain dy bY where u8: "unsignedModulo_i64 b1 BibCpp_SECONDSPERDAY = Some (dy, bY)"
    using unsignedModulo_i64_Some [of BibCpp_SECONDSPERDAY b1] by (auto simp: consts_vals)
  obtain dW bW where u9: "unsignedModulo_i64 t64 BibCpp_SECONDSPERWEEK = Some (dW, bW)"
    using unsignedModulo_i64_Some [of BibCpp_SECONDSPERWEEK t64] by (auto simp: consts_vals)
  obtain dw bX where u10: "unsignedModulo_i64 bW BibCpp_SECONDSPERDAY = Some (dw, bX)"
    using unsignedModulo_i64_Some [of BibCpp_SECONDSPERDAY bW] by (auto simp: consts_vals)
  show ?thesis
    by (simp add: y2038Calendar_def Let_def t u1 u2 u3 u4 yv ml ta u5 u6 u7 u8 u9 u10)
qed

lemma y2038Set_eq:
  assumes u1: "unsignedModulo_i64 (scast (year c - 2001)) 400 = Some (k, r4)"
    and u2: "unsignedModulo_i64 r4 100 = Some (j, r1)"
    and u3: "unsignedModulo_i64 r1 4 = Some (i, h)"
    and ta: "table_at (BibCpp_SECONDSTILLMONTH (BibCpp_isLeapYear (year c))) (uint (month c) - 1)
               = Some tillMonth"
  shows "y2038Set c
           = Some (scast ((ucast (k * 12622780800 + j * 3155673600 + i * 126230400
                                  + h * 31536000 + tillMonth + (ucast (day c) - 1) * 86400
                                  + ucast (hour c) * 3600 + ucast (minute c) * 60
                                  + ucast (second c)
                                  - scast (if 0 <s dst c then timeZone c + 1 else timeZone c) * 3600
                                  - 915148800 :: 64 word) :: 32 word)
                          + 1893456000))"
  by (simp add: y2038Set_def Let_def u1 u2 u3 ta consts_vals add.assoc)

lemma leap_year_blocks:
  fixes y :: int
  assumes "1964 \<le> y" "y \<le> 2096" "y mod 4 = 0"
  shows "\<exists>k j i. y - 2001 = 400 * k + 100 * j + 4 * i + 3
           \<and> (k = 0 \<and> j = 0 \<and> 0 \<le> i \<and> i \<le> 23 \<or> k = - 1 \<and> j = 3 \<and> 15 \<le> i \<and> i \<le> 24)"
proof (cases "2001 \<le> y")
  case True
  define i where "i = (y - 2004) div 4"
  have "y - 2004 = 4 * i" using assms by (simp add: i_def) presburger
  moreover have "0 \<le> i" "i \<le> 23" using True assms by (auto simp: i_def)
  ultimately show ?thesis by (intro exI [of _ 0] exI [of _ i]) auto
next
  case False
  define i where "i = (y - 1904) div 4"
  have "y - 1904 = 4 * i" using assms by (simp add: i_def) presburger
  moreover have "15 \<le> i" "i \<le> 24" using False assms by (auto simp: i_def)
  ultimately show ?thesis by (intro exI [of _ "- 1"] exI [of _ 3] exI [of _ i]) auto
qed

lemma leap_year_mod4:
  assumes pos: "0 < sint (Y :: 32 word)" and leap: "BibCpp_isLeapYear Y"
  shows "sint Y mod 4 = 0"
proof -
  have s4: "smod_w Y 4 = word_of_int (sint Y mod 4)"
    using pos by (simp add: smod_w_def smod_nonneg)
  have s400: "smod_w Y 400 = word_of_int (sint Y mod 400)"
    using pos by (simp add: smod_w_def smod_nonneg)
  have z4: "(word_of_int (sint Y mod 4) :: 32 word) = 0 \<longleftrightarrow> sint Y mod 4 = 0"
  proof
    assume "(word_of_int (sint Y mod 4) :: 32 word) = 0"
    then have "uint (word_of_int (sint Y mod 4) :: 32 word) = 0" by simp
    moreover have "uint (word_of_int (sint Y mod 4) :: 32 word) = sint Y mod 4"
      by (simp only: uint_word_of_int) (simp add: order.strict_trans [OF pos_mod_bound])
    ultimately show "sint Y mod 4 = 0" by simp
  qed simp
  have z400: "(word_of_int (sint Y mod 400) :: 32 word) = 0 \<longleftrightarrow> sint Y mod 400 = 0"
  proof
    assume "(word_of_int (sint Y mod 400) :: 32 word) = 0"
    then have "uint (word_of_int (sint Y mod 400) :: 32 word) = 0" by simp
    moreover have "uint (word_of_int (sint Y mod 400) :: 32 word) = sint Y mod 400"
      by (simp only: uint_word_of_int) (simp add: order.strict_trans [OF pos_mod_bound])
    ultimately show "sint Y mod 400 = 0" by simp
  qed simp
  from leap have "sint Y mod 4 = 0 \<or> sint Y mod 400 = 0"
    by (auto simp add: BibCpp_isLeapYear_def s4 s400 z4 z400)
  then show ?thesis by presburger
qed

lemma ucast_scast_32_64: "(ucast (scast (w :: 32 word) :: 64 word) :: 32 word) = w"
  by (rule bit_word_eqI) (auto simp add: bit_simps)

lemma sint_of_int_32: "- (2 ^ 31) \<le> x \<Longrightarrow> x < 2 ^ 31 \<Longrightarrow> sint (word_of_int x :: 32 word) = x"
  by (simp add: sint_sbintrunc' signed_take_bit_int_eq_self)

lemma ucast_wi_64_32: "(ucast (word_of_int a :: 64 word) :: 32 word) = word_of_int a"
  by (rule ucast_down_wi) (simp add: is_down)

lemma ucast_wi_64_8: "(ucast (word_of_int a :: 64 word) :: 8 word) = word_of_int a"
  by (rule ucast_down_wi) (simp add: is_down)

lemma um_floor_w:
  assumes "aw = word_of_int a" "mw = word_of_int m" "qw = word_of_int q" "rw = word_of_int r"
    and "0 < m" "m < 2 ^ 63" "- (2 ^ 63) \<le> a" "a < 2 ^ 63"
    and "0 \<le> r" "r < m" "a = q * m + r" "0 \<le> a \<or> 0 < r"
  shows "unsignedModulo_i64 aw mw = Some (qw, rw)"
  unfolding assms(1-4) using assms(5-12) by (rule unsignedModulo_i64_floor)

lemma feb29_roundtrip:
  fixes Y :: "32 word" and hh mi ss :: "8 word" and z d :: "8 word"
  assumes yr: "1964 \<le> sint Y" "sint Y \<le> 2096" and leap: "BibCpp_isLeapYear Y"
    and hms: "hh < 24" "mi < 60" "ss < 60"
    and zr: "- 12 \<le> sint z" "sint z \<le> 12" and d: "\<not> 0 <s d"
    and c: "year c = Y" "month c = 2" "day c = 29" "hour c = hh" "minute c = mi"
      "second c = ss" "dst c = d" "timeZone c = z"
  shows "\<exists>e c'. y2038Set c = Some e \<and> y2038Calendar P e (Some z) d = Some c'
           \<and> year c' = Y \<and> month c' = 2 \<and> day c' = 29 \<and> hour c' = hh \<and> minute c' = mi
           \<and> second c' = ss \<and> dst c' = d \<and> timeZone c' = z"
proof -
  define H where "H = uint hh"
  define M where "M = uint mi"
  define S where "S = uint ss"
  define zs where "zs = sint z"
  have H: "0 \<le> H" "H < 24" using hms by (simp_all add: H_def word_less_def)
  have M: "0 \<le> M" "M < 60" using hms by (simp_all add: M_def word_less_def)
  have S: "0 \<le> S" "S < 60" using hms by (simp_all add: S_def word_less_def)
  have zs: "- 12 \<le> zs" "zs \<le> 12" using zr by (simp_all add: zs_def)
  have m4: "sint Y mod 4 = 0" using yr leap by (intro leap_year_mod4) auto
  from leap_year_blocks [OF yr m4] obtain k j i where
    p: "sint Y - 2001 = 400 * k + 100 * j + 4 * i + 3"
    and kji: "k = 0 \<and> j = 0 \<and> 0 \<le> i \<and> i \<le> 23 \<or> k = - 1 \<and> j = 3 \<and> 15 \<le> i \<and> i \<le> 24"
    by blast
  have j: "0 \<le> j" "j \<le> 3" and i: "0 \<le> i" "i \<le> 24" using kji by auto
  define pp where "pp = sint Y - 2001"
  define R4 where "R4 = 100 * j + 4 * i + 3"
  define R1 where "R1 = 4 * i + 3"
  define xm where "xm = 60 * M + S"
  define x where "x = 3600 * H + xm"
  define bM where "bM = 2419200 + x"
  define b1 where "b1 = 5097600 + x"
  define B0 where "B0 = 94608000 + b1"
  define B1 where "B1 = 126230400 * i + B0"
  define B4 where "B4 = 3155673600 * j + B1"
  define T where "T = 12622780800 * k + B4"
  define V where "V = T - 3600 * zs - 915148800"
  have xm: "0 \<le> xm" "xm < 3600" using M S by (simp_all add: xm_def)
  have x: "0 \<le> x" "x < 86400" using H xm by (simp_all add: x_def)
  have Vr: "- (2 ^ 31) \<le> V" "V < 2 ^ 31"
    using kji x zs by (auto simp add: V_def T_def B4_def B1_def B0_def b1_def)
  have sY: "sint (Y - 2001) = pp"
    using yr by (simp add: sint_word_ariths signed_take_bit_int_eq_self pp_def)
  have sc: "(scast (Y - 2001) :: 64 word) = word_of_int pp"
    by (simp only: scast_eq sY)
  have s1: "unsignedModulo_i64 (word_of_int pp) 400 = Some (word_of_int k, word_of_int R4)"
    by (rule um_floor_w [where a = pp and m = 400 and q = k and r = R4])
       (use p kji in \<open>auto simp add: pp_def R4_def\<close>)
  have s2: "unsignedModulo_i64 (word_of_int R4) 100 = Some (word_of_int j, word_of_int R1)"
    by (rule um_floor_w [where a = R4 and m = 100 and q = j and r = R1])
       (use j i in \<open>auto simp add: R4_def R1_def\<close>)
  have s3: "unsignedModulo_i64 (word_of_int R1) 4 = Some (word_of_int i, 3)"
    by (rule um_floor_w [where a = R1 and m = 4 and q = i and r = 3])
       (use i in \<open>auto simp add: R1_def\<close>)
  have ta: "table_at (BibCpp_SECONDSTILLMONTH (BibCpp_isLeapYear (year c))) (uint (month c) - 1)
              = Some 2678400"
    using leap by (simp add: c table_vals table_at_def)
  have u1: "unsignedModulo_i64 (scast (year c - 2001)) 400 = Some (word_of_int k, word_of_int R4)"
    unfolding c sc by (rule s1)
  have cH: "(ucast hh :: 64 word) = word_of_int H" by (simp only: H_def ucast_eq)
  have cM: "(ucast mi :: 64 word) = word_of_int M" by (simp only: M_def ucast_eq)
  have cS: "(ucast ss :: 64 word) = word_of_int S" by (simp only: S_def ucast_eq)
  have cz: "(scast z :: 64 word) = word_of_int zs" by (simp only: zs_def scast_eq)
  have c29: "(ucast (29 :: 8 word) :: 64 word) = 29" by simp
  have Vexp: "V = k * 12622780800 + j * 3155673600 + i * 126230400 + 3 * 31536000 + 2678400
                 + (29 - 1) * 86400 + H * 3600 + M * 60 + S - zs * 3600 - 915148800"
    by (simp add: V_def T_def B4_def B1_def B0_def b1_def x_def xm_def)
  have W: "(word_of_int k * 12622780800 + word_of_int j * 3155673600 + word_of_int i * 126230400
            + 3 * 31536000 + 2678400 + (29 - 1) * 86400
            + word_of_int H * 3600 + word_of_int M * 60 + word_of_int S
            - word_of_int zs * 3600 - 915148800 :: 64 word) = word_of_int V"
    unfolding Vexp by (simp only: wi_hom_syms word_of_int_numeral word_of_int_1)
  have e0: "y2038Set c
           = Some (scast ((ucast (word_of_int k * 12622780800 + word_of_int j * 3155673600
                                  + word_of_int i * 126230400
                                  + 3 * 31536000 + 2678400 + (ucast (day c) - 1) * 86400
                                  + ucast (hour c) * 3600 + ucast (minute c) * 60
                                  + ucast (second c)
                                  - scast (if 0 <s dst c then timeZone c + 1 else timeZone c) * 3600
                                  - 915148800 :: 64 word) :: 32 word)
                          + 1893456000))"
    by (rule y2038Set_eq [OF u1 s2 s3 ta])
  have e: "y2038Set c = Some (scast ((word_of_int V :: 32 word) + 1893456000))"
    using d unfolding e0 by (simp only: c if_False cH cM cS cz c29 W ucast_wi_64_32)
  define ew :: "64 word" where "ew = scast ((word_of_int V :: 32 word) + 1893456000)"
  have t1: "(ucast ew :: 32 word) - 1893456000 = word_of_int V"
    by (simp only: ew_def ucast_scast_32_64 add_diff_cancel_right')
  have t2: "(scast (word_of_int V :: 32 word) :: 64 word) = word_of_int V"
    by (simp only: scast_eq sint_of_int_32 [OF Vr])
  have t3: "V + 915148800 + zs * 3600 = T" by (simp add: V_def)
  have t4: "(word_of_int V + 915148800 + word_of_int zs * 3600 :: 64 word) = word_of_int T"
    unfolding t3 [symmetric] by (simp only: wi_hom_syms word_of_int_numeral)
  have t64: "scast ((ucast ew :: 32 word) - BibCpp_TIME_T_2030) + BibCpp_TIME_T_2030_2001
               + (scast (if 0 <s d then z - 1 else z) :: 64 word) * BibCpp_SECONDSPERHOUR
             = word_of_int T"
    using d by (simp only: consts_vals if_False t1 t2 cz t4)
  have B4: "0 < B4" "B4 < 12622780800"
    using j i x by (auto simp add: B4_def B1_def B0_def b1_def)
  have B1: "0 \<le> B1" "B1 < 3155673600"
    using i x by (auto simp add: B1_def B0_def b1_def)
  have B0: "0 \<le> B0" "B0 < 126230400"
    using x by (auto simp add: B0_def b1_def)
  have b1: "0 \<le> b1" "b1 < 31536000" "5097600 \<le> b1" "b1 < 5184000"
    using x by (auto simp add: b1_def)
  have Tr: "- (2 ^ 63) \<le> T" "T < 2 ^ 63"
    using kji B4 by (auto simp add: T_def)
  have c1: "unsignedModulo_i64 (word_of_int T) BibCpp_SECONDSPER400YEARS
              = Some (word_of_int k, word_of_int B4)"
    unfolding consts_vals
    by (rule um_floor_w [where a = T and m = 12622780800 and q = k and r = B4])
       (use Tr B4 in \<open>auto simp add: T_def\<close>)
  have c2: "unsignedModulo_i64 (word_of_int B4) BibCpp_SECONDSPER100YEARS
              = Some (word_of_int j, word_of_int B1)"
    unfolding consts_vals
    by (rule um_floor_w [where a = B4 and m = 3155673600 and q = j and r = B1])
       (use B4 B1 in \<open>auto simp add: B4_def\<close>)
  have c3: "unsignedModulo_i64 (word_of_int B1) BibCpp_SECONDSPER4YEARS
              = Some (word_of_int i, word_of_int B0)"
    unfolding consts_vals
    by (rule um_floor_w [where a = B1 and m = 126230400 and q = i and r = B0])
       (use B1 B0 in \<open>auto simp add: B1_def\<close>)
  have c4: "unsignedModulo_i64 (word_of_int B0) BibCpp_SECONDSPERNORMALYEAR
              = Some (3, word_of_int b1)"
    unfolding consts_vals
    by (rule um_floor_w [where a = B0 and m = 31536000 and q = 3 and r = b1])
       (use B0 b1 in \<open>auto simp add: B0_def\<close>)
  have y1: "(word_of_int k + 5 :: 64 word) = word_of_int (k + 5)"
    by (simp only: wi_hom_syms word_of_int_numeral)
  have y2: "(ucast (3 + 1 :: 64 word) :: 32 word) = 4" by simp
  have y3: "(word_of_int (k + 5) * 400 + word_of_int j * 100 + word_of_int i * 4 + 4 :: 32 word)
              = word_of_int ((k + 5) * 400 + j * 100 + i * 4 + 4)"
    by (simp only: wi_hom_syms word_of_int_numeral)
  have y4: "(k + 5) * 400 + j * 100 + i * 4 + 4 = sint Y" using p by simp
  have yv: "ucast (word_of_int k + 5 :: 64 word) * 400 + ucast (word_of_int j :: 64 word) * 100
              + ucast (word_of_int i :: 64 word) * 4 + ucast (3 + 1 :: 64 word) = Y"
    by (simp only: y1 y2 ucast_wi_64_32 y3 y4) simp
  have ub1: "uint (word_of_int b1 :: 64 word) = b1"
    using b1 by (intro uint_of_int_64) auto
  have ml: "month_loop (BibCpp_SECONDSTILLMONTH (BibCpp_isLeapYear Y)) (word_of_int b1) 11 = 1"
    using leap b1 by (simp add: month_loop_numeral table_vals word_le_def ub1)
  have ta2: "table_at (BibCpp_SECONDSTILLMONTH (BibCpp_isLeapYear Y)) 1 = Some 2678400"
    using leap by (simp add: table_vals table_at_def)
  have c5: "unsignedModulo_i64 (word_of_int b1 - 2678400) BibCpp_SECONDSPERDAY
              = Some (28, word_of_int x)"
    unfolding consts_vals
    by (rule um_floor_w [where a = bM and m = 86400 and q = 28 and r = x])
       (use x in \<open>auto simp add: bM_def b1_def\<close>)
  have c6: "unsignedModulo_i64 (word_of_int x) BibCpp_SECONDSPERHOUR
              = Some (word_of_int H, word_of_int xm)"
    unfolding consts_vals
    by (rule um_floor_w [where a = x and m = 3600 and q = H and r = xm])
       (use x xm in \<open>auto simp add: x_def\<close>)
  have c7: "unsignedModulo_i64 (word_of_int xm) BibCpp_SECONDSPERMINUTE
              = Some (word_of_int M, word_of_int S)"
    unfolding consts_vals
    by (rule um_floor_w [where a = xm and m = 60 and q = M and r = S])
       (use xm S in \<open>auto simp add: xm_def\<close>)
  from y2038Calendar_SomeI [OF t64 c1 c2 c3 c4 yv ml ta2 c5 c6 c7, of P]
  obtain c' where r: "y2038Calendar P ew (Some z) d = Some c'" "year c' = Y"
    "month c' = word_of_int (1 + 1)" "day c' = ucast (28 + 1 :: 64 word)"
    "hour c' = ucast (word_of_int H :: 64 word)" "minute c' = ucast (word_of_int M :: 64 word)"
    "second c' = ucast (word_of_int S :: 64 word)" "dst c' = d" "timeZone c' = z"
    by blast
  have f1: "month c' = 2" "day c' = 29"
    using r by simp_all
  have f2: "hour c' = hh" "minute c' = mi" "second c' = ss"
    unfolding r by (simp_all only: ucast_wi_64_8 H_def M_def S_def word_of_int_uint)
  show ?thesis
    using e r(1,2,8,9) f1 f2 unfolding ew_def by blast
qed

lemma feb29_nonleap:
  assumes nl: "\<not> BibCpp_isLeapYear (year c)" and md: "month c = 2" "day c = 29"
  shows "\<exists>e. y2038Set c = Some e \<and> y2038Set (c\<lparr>month := 3, day := 1\<rparr>) = Some e"
proof -
  define c3 where "c3 = c\<lparr>month := 3, day := 1\<rparr>"
  have c3: "year c3 = year c" "month c3 = 3" "day c3 = 1" "hour c3 = hour c"
    "minute c3 = minute c" "second c3 = second c" "dst c3 = dst c" "timeZone c3 = timeZone c"
    by (simp_all add: c3_def)
  obtain k r4 where u1: "unsignedModulo_i64 (scast (year c - 2001)) 400 = Some (k, r4)"
    using unsignedModulo_i64_Some [of 400 "scast (year c - 2001)"] by auto
  obtain j r1 where u2: "unsignedModulo_i64 r4 100 = Some (j, r1)"
    using unsignedModulo_i64_Some [of 100 r4] by auto
  obtain i h where u3: "unsignedModulo_i64 r1 4 = Some (i, h)"
    using unsignedModulo_i64_Some [of 4 r1] by auto
  have ta: "table_at (BibCpp_SECONDSTILLMONTH (BibCpp_isLeapYear (year c))) (uint (month c) - 1)
              = Some 2678400"
    using nl by (simp add: md table_vals table_at_def)
  have ta3: "table_at (BibCpp_SECONDSTILLMONTH (BibCpp_isLeapYear (year c3))) (uint (month c3) - 1)
               = Some 5097600"
    using nl by (simp add: c3 table_vals table_at_def)
  have u13: "unsignedModulo_i64 (scast (year c3 - 2001)) 400 = Some (k, r4)"
    using u1 by (simp only: c3)
  have a: "y2038Set c3 = y2038Set c"
    unfolding y2038Set_eq [OF u1 u2 u3 ta] y2038Set_eq [OF u13 u2 u3 ta3]
    by (simp add: c3 md)
  show ?thesis
    unfolding c3_def [symmetric] a y2038Set_eq [OF u1 u2 u3 ta] by simp
qed

subsection \<open>Both converters on a conforming platform\<close>



















subsection \<open>Claims about the floor modulo\<close>

text \<open>
  Claim C1 says that \<open>unsignedModulo\<close> returns the floor quotient and a remainder with
  \<open>value = divisor * modulo + remainder\<close> for every value and positive modulo, also when
  the value is an exact negative multiple of the modulo.  At value \<open>-10\<close> and modulo \<open>5\<close>
  the source returns divisor \<open>-3\<close> and remainder \<open>0\<close>: the truncated quotient \<open>-2\<close> is
  negative, so it is decremented, and the remainder \<open>0\<close> is left alone.  The floor
  quotient is \<open>-2\<close>, and \<open>-3 * 5 + 0\<close> is \<open>-15\<close>.  (Lemmas \<open>unsignedModulo_i64_nonneg\<close>
  and \<open>unsignedModulo_i64_neg\<close> give the result for every value and every modulo that
  is positive as a signed number: it is the floor quotient and remainder except at the
  negative multiples of the modulo, where the divisor is one too small.)
\<close>

theorem C1_unsignedModulo_negative_multiple:
  "unsignedModulo_i64 (- 10) 5 = Some (- 3, 0)"
  by (simp add: unsignedModulo_i64_def c_div_def c_mod_def div_defined_def sdiv_w_def
      smod_w_def word_sless_alt)

text \<open>
  Claim C9 says that \<open>unsignedModulo\<close> is total over all inputs.  At the most negative
  value with modulo \<open>2^64 - 1\<close> the modulo is not zero, \<open>(T)modulo\<close> is \<open>-1\<close>, and the
  quotient of the division does not fit \<open>int64_t\<close>: the division has no value.
\<close>

theorem C9_division_overflow_counterexample:
  "unsignedModulo_i64 (- 9223372036854775808) 18446744073709551615 = None"
  by (simp add: unsignedModulo_i64_def c_div_def c_mod_def div_defined_def)

text \<open>
  Claim C9, amended: for every value, \<open>unsignedModulo\<close> with modulo \<open>0\<close> divides nothing and
  returns divisor \<open>1\<close> and remainder \<open>0\<close>; no division by zero is reachable; and the function
  returns a result on every input other than the most negative value with modulo
  \<open>2^64 - 1\<close> (the word \<open>- 1\<close>), the one input where the signed division overflows.
\<close>

theorem C9_unsignedModulo_total_but_overflow:
  "unsignedModulo_i64 v 0 = Some (1, 0)
   \<and> (unsignedModulo_i64 v m = None \<longleftrightarrow> v = - (2 ^ 63) \<and> m = - 1)"
  by (simp add: unsignedModulo_i64_zero unsignedModulo_i64_None_iff)

theorem C9_unsignedModulo_total_but_overflow_witness:
  "unsignedModulo_i64 (- 7) 0 = Some (1, 0)
   \<and> unsignedModulo_i64 (- 7) 3 \<noteq> None"
  using C9_unsignedModulo_total_but_overflow [of "- 7" 3] by simp

subsection \<open>Claims about the overflow-safe converter\<close>

text \<open>
  Claim C7: the weekday and the calendar week of \<open>y2038Calendar\<close> are anchored at the
  pivot.  For the epoch value of 2001-01-01 00:00:00 UTC, \<open>978307200\<close>, viewed in UTC
  (a pointer to zone \<open>0\<close>, \<open>dst = -1\<close>), it yields \<open>dayInWeek = 1\<close> and
  \<open>calendarWeek = 1\<close>; for \<open>1695214956\<close>, on 2023-09-20, it yields \<open>dayInWeek = 3\<close>.
  This holds on every platform.
\<close>

theorem C7_weekday_anchor:
  "map_option (\<lambda>c. (year c, month c, day c, dayInWeek c, calendarWeek c))
     (y2038Calendar P 978307200 (Some 0) (- 1)) = Some (2001, 1, 1, 1, 1)
   \<and> map_option (\<lambda>c. (year c, month c, day c, dayInWeek c))
       (y2038Calendar P 1695214956 (Some 0) (- 1)) = Some (2023, 9, 20, 3)"
proof -
  have a: "map_option (\<lambda>c. (year c, month c, day c, dayInWeek c, calendarWeek c))
     (y2038Calendar P 978307200 (Some 0) (- 1)) = Some (2001, 1, 1, 1, 1)"
    by (simp add: y2038_eval)
  have b: "map_option (\<lambda>c. (year c, month c, day c, dayInWeek c))
       (y2038Calendar P 1695214956 (Some 0) (- 1)) = Some (2023, 9, 20, 3)"
    by (simp add: y2038_eval)
  show ?thesis using a b by (rule conjI)
qed

text \<open>
  Claim C2 says that converting an epoch value to a calendar with \<open>y2038Calendar\<close> and
  back with \<open>y2038Set\<close> yields the epoch value again.  The epoch value \<open>1104451200\<close> is
  2004-12-31 00:00:00 UTC, the last day of a leap year.  Viewed in UTC, the source
  finds four whole normal years in the four-year block, so the calendar reads
  2005-01-01, and \<open>y2038Set\<close> of that calendar is \<open>1104537600\<close>, one day later.
\<close>

theorem C2_roundtrip_last_day_of_leap_year:
  "y2038Calendar P 1104451200 (Some 0) (- 1)
     = Some \<lparr>year = 2005, month = 1, day = 1, hour = 0, minute = 0, second = 0,
             dst = - 1, timeZone = 0, leapSecond = - 1, subZone = 0, picoSeconds = 0,
             dayInWeek = 5, calendarWeek = 1, dayInYear = 1\<rparr>
   \<and> Option.bind (y2038Calendar P 1104451200 (Some 0) (- 1)) y2038Set = Some 1104537600"
proof -
  have a: "y2038Calendar P 1104451200 (Some 0) (- 1)
     = Some \<lparr>year = 2005, month = 1, day = 1, hour = 0, minute = 0, second = 0,
             dst = - 1, timeZone = 0, leapSecond = - 1, subZone = 0, picoSeconds = 0,
             dayInWeek = 5, calendarWeek = 1, dayInYear = 1\<rparr>"
    by (simp add: y2038_eval)
  have b: "y2038Set \<lparr>year = 2005, month = 1, day = 1, hour = 0, minute = 0, second = 0,
             dst = - 1, timeZone = 0, leapSecond = - 1, subZone = 0, picoSeconds = 0,
             dayInWeek = 5, calendarWeek = 1, dayInYear = 1\<rparr> = Some 1104537600"
    by (simp add: y2038_eval)
  show ?thesis by (simp add: a b)
qed

text \<open>
  The second defect behind claim C2: with a zone pointer and \<open>dst = 1\<close>, \<open>y2038Calendar\<close>
  subtracts one hour from the zone where \<open>y2038Set\<close> adds one, so the way back is two
  hours short.
\<close>

lemma roundtrip_dst_two_hours:
  "Option.bind (y2038Calendar P 1695214956 (Some 1) 1) y2038Set = Some (1695214956 - 7200)"
proof -
  have a: "y2038Calendar P 1695214956 (Some 1) 1
     = Some \<lparr>year = 2023, month = 9, day = 20, hour = 13, minute = 2, second = 36,
             dst = 1, timeZone = 1, leapSecond = - 1, subZone = 0, picoSeconds = 0,
             dayInWeek = 3, calendarWeek = 39, dayInYear = 263\<rparr>"
    by (simp add: y2038_eval)
  have b: "y2038Set \<lparr>year = 2023, month = 9, day = 20, hour = 13, minute = 2, second = 36,
             dst = 1, timeZone = 1, leapSecond = - 1, subZone = 0, picoSeconds = 0,
             dayInWeek = 3, calendarWeek = 39, dayInYear = 263\<rparr> = Some 1695207756"
    by (simp add: y2038_eval)
  show ?thesis by (simp add: a b)
qed

text \<open>
  Claim C6 says that a calendar with month 2 and day 29 in a year that is no leap year,
  such as 2023-02-29, is rejected as invalid.  \<open>y2038Set\<close> checks nothing: it returns the
  epoch value \<open>1677628800\<close>, which is the one of 2023-03-01 and which \<open>y2038Calendar\<close>
  shows as 2023-03-01.
\<close>

theorem C6_feb29_2023_counterexample:
  "y2038Set \<lparr>year = 2023, month = 2, day = 29, hour = 0, minute = 0, second = 0, dst = 0,
             timeZone = 0, leapSecond = - 1, subZone = 0, picoSeconds = 0, dayInWeek = 0,
             calendarWeek = 0, dayInYear = 0\<rparr> = Some 1677628800
   \<and> y2038Calendar platform_utc_2001 1677628800 (Some 0) 0
       = Some \<lparr>year = 2023, month = 3, day = 1, hour = 0, minute = 0, second = 0, dst = 0,
               timeZone = 0, leapSecond = - 1, subZone = 0, picoSeconds = 0, dayInWeek = 3,
               calendarWeek = 10, dayInYear = 60\<rparr>"
proof -
  have a: "y2038Set \<lparr>year = 2023, month = 2, day = 29, hour = 0, minute = 0, second = 0,
             dst = 0, timeZone = 0, leapSecond = - 1, subZone = 0, picoSeconds = 0,
             dayInWeek = 0, calendarWeek = 0, dayInYear = 0\<rparr> = Some 1677628800"
    by (simp add: y2038_eval)
  have b: "y2038Calendar platform_utc_2001 1677628800 (Some 0) 0
       = Some \<lparr>year = 2023, month = 3, day = 1, hour = 0, minute = 0, second = 0, dst = 0,
               timeZone = 0, leapSecond = - 1, subZone = 0, picoSeconds = 0, dayInWeek = 3,
               calendarWeek = 10, dayInYear = 60\<rparr>"
    by (simp add: y2038_eval)
  show ?thesis using a b by (rule conjI)
qed

text \<open>
  Claim C6, amended.  For a calendar with month 2 and day 29: if the year satisfies the
  leap predicate and lies between 1964 and 2096, the time of day is a valid one, the zone
  is between \<open>-12\<close> and \<open>12\<close> and \<open>dst\<close> is not positive, then \<open>y2038Set\<close> returns an
  epoch value and \<open>y2038Calendar\<close> of that value, asked for the same zone, returns the
  same year, month 2, day 29 and the same time of day; if the year does not satisfy the
  leap predicate, the calendar is not rejected: \<open>y2038Set\<close> returns the epoch value of
  March 1 of that year at the same time of day.
\<close>

theorem C6_feb29_roundtrip_or_march_1:
  assumes "month c = 2" "day c = 29"
  shows "(BibCpp_isLeapYear (year c) \<and> 1964 \<le> sint (year c) \<and> sint (year c) \<le> 2096
            \<and> hour c < 24 \<and> minute c < 60 \<and> second c < 60
            \<and> - 12 \<le> sint (timeZone c) \<and> sint (timeZone c) \<le> 12 \<and> \<not> 0 <s dst c
          \<longrightarrow> (\<exists>e c'. y2038Set c = Some e
                 \<and> y2038Calendar P e (Some (timeZone c)) (dst c) = Some c'
                 \<and> year c' = year c \<and> month c' = 2 \<and> day c' = 29 \<and> hour c' = hour c
                 \<and> minute c' = minute c \<and> second c' = second c
                 \<and> dst c' = dst c \<and> timeZone c' = timeZone c))
         \<and> (\<not> BibCpp_isLeapYear (year c)
          \<longrightarrow> (\<exists>e. y2038Set c = Some e \<and> y2038Set (c\<lparr>month := 3, day := 1\<rparr>) = Some e))"
proof (intro conjI impI)
  assume h: "BibCpp_isLeapYear (year c) \<and> 1964 \<le> sint (year c) \<and> sint (year c) \<le> 2096
            \<and> hour c < 24 \<and> minute c < 60 \<and> second c < 60
            \<and> - 12 \<le> sint (timeZone c) \<and> sint (timeZone c) \<le> 12 \<and> \<not> 0 <s dst c"
  show "\<exists>e c'. y2038Set c = Some e
                 \<and> y2038Calendar P e (Some (timeZone c)) (dst c) = Some c'
                 \<and> year c' = year c \<and> month c' = 2 \<and> day c' = 29 \<and> hour c' = hour c
                 \<and> minute c' = minute c \<and> second c' = second c
                 \<and> dst c' = dst c \<and> timeZone c' = timeZone c"
    by (rule feb29_roundtrip [where c = c and P = P]) (use h assms in simp_all)
next
  assume "\<not> BibCpp_isLeapYear (year c)"
  then show "\<exists>e. y2038Set c = Some e \<and> y2038Set (c\<lparr>month := 3, day := 1\<rparr>) = Some e"
    using assms by (rule feb29_nonleap)
qed

theorem C6_feb29_roundtrip_or_march_1_witness:
  "(\<exists>e c'. y2038Set \<lparr>year = 2024, month = 2, day = 29, hour = 12, minute = 30, second = 45,
                      dst = 0, timeZone = 1, leapSecond = - 1, subZone = 0, picoSeconds = 0,
                      dayInWeek = 0, calendarWeek = 0, dayInYear = 0\<rparr> = Some e
      \<and> y2038Calendar platform_utc_2001 e (Some 1) 0 = Some c'
      \<and> year c' = 2024 \<and> month c' = 2 \<and> day c' = 29 \<and> hour c' = 12 \<and> minute c' = 30
      \<and> second c' = 45 \<and> dst c' = 0 \<and> timeZone c' = 1)
   \<and> (\<exists>e. y2038Set \<lparr>year = 2023, month = 2, day = 29, hour = 12, minute = 30, second = 45,
                      dst = 0, timeZone = 1, leapSecond = - 1, subZone = 0, picoSeconds = 0,
                      dayInWeek = 0, calendarWeek = 0, dayInYear = 0\<rparr> = Some e
      \<and> y2038Set \<lparr>year = 2023, month = 3, day = 1, hour = 12, minute = 30, second = 45,
                      dst = 0, timeZone = 1, leapSecond = - 1, subZone = 0, picoSeconds = 0,
                      dayInWeek = 0, calendarWeek = 0, dayInYear = 0\<rparr> = Some e)"
  using C6_feb29_roundtrip_or_march_1
          [of "\<lparr>year = 2024, month = 2, day = 29, hour = 12, minute = 30, second = 45,
                dst = 0, timeZone = 1, leapSecond = - 1, subZone = 0, picoSeconds = 0,
                dayInWeek = 0, calendarWeek = 0, dayInYear = 0\<rparr>" platform_utc_2001]
        C6_feb29_roundtrip_or_march_1
          [of "\<lparr>year = 2023, month = 2, day = 29, hour = 12, minute = 30, second = 45,
                dst = 0, timeZone = 1, leapSecond = - 1, subZone = 0, picoSeconds = 0,
                dayInWeek = 0, calendarWeek = 0, dayInYear = 0\<rparr>" platform_utc_2001]
  by (simp add: BibCpp_isLeapYear_def smod_w_def word_sless_alt)

subsection \<open>Claims about the zone adjustment\<close>

text \<open>
  Claim C10 says that after \<open>setTimeZone\<close> the day is between 1 and the days of the
  month, the month between 1 and 12 and the hour between 0 and 23.  For 2023-03-01
  00:00:00 in zone \<open>+1\<close>, standard time, and destination zone \<open>0\<close>, the hour borrows a
  day: the source computes \<open>day - 1 = 0\<close>, tests \<open>day < 0\<close>, and stores day \<open>0\<close> in March.
\<close>

theorem C10_setTimeZone_day_zero:
  "setTimeZone
     \<lparr>year = 2023, month = 3, day = 1, hour = 0, minute = 0, second = 0, dst = 0,
      timeZone = 1, leapSecond = - 1, subZone = 0, picoSeconds = 0, dayInWeek = 3,
      calendarWeek = 9, dayInYear = 60\<rparr> 0
   = Some \<lparr>year = 2023, month = 3, day = 0, hour = 23, minute = 0, second = 0, dst = 0,
           timeZone = 1, leapSecond = - 1, subZone = 0, picoSeconds = 0, dayInWeek = 3,
           calendarWeek = 9, dayInYear = 60\<rparr>"
  by (simp add: setTimeZone_def word_sless_alt BibCpp_isLeapYear_def smod_w_def)

subsection \<open>Claims about the native-range converter\<close>




subsection \<open>Claims about durations\<close>

text \<open>
  Claim C8 says that for every representable epoch value \<open>duration()\<close> decomposes the
  absolute value so that the sign times the sum of the magnitudes is the value.  The most
  negative \<open>time_t\<close> has no absolute value in the type: \<open>value = -value\<close> leaves it
  negative, the four magnitudes are the unsigned readings of negative quotients, and
  what the duration represents is not the epoch value.
\<close>

theorem C8_most_negative_counterexample:
  "duration (- 9223372036854775808)
     = \<lparr>days = 18446637321718384316, hours = 18446744073709551601,
        minutes = 18446744073709551586, seconds = 18446744073709551608, sign = - 1\<rparr>
   \<and> represented_seconds (duration (- 9223372036854775808))
       \<noteq> sint (- 9223372036854775808 :: time_t)"
proof -
  have a: "duration (- 9223372036854775808)
     = \<lparr>days = 18446637321718384316, hours = 18446744073709551601,
        minutes = 18446744073709551586, seconds = 18446744073709551608, sign = - 1\<rparr>"
    by (simp add: duration_def sdiv_w_def smod_w_def word_sless_alt)
  show ?thesis by (simp add: a represented_seconds_def)
qed

text \<open>
  Claim C8, amended: for every epoch value \<open>t\<close> other than the most negative one,
  \<open>duration()\<close> decomposes \<open>|t|\<close> by floor division by 86400, then 3600, then 60, with the
  last remainder as seconds and the sign of \<open>t\<close> as sign, so that the sign times the sum
  of the magnitudes is \<open>t\<close> and \<open>cTime::set\<close> of that duration returns \<open>t\<close>; a delta of 95
  days, 0 hours, 42 minutes and 22 seconds (\<open>8210542\<close>) formats as \<open>D95#00:42:22\<close>, and
  parsing that string and recomposing gives \<open>8210542\<close> again.
\<close>

theorem C8_duration_decomposes:
  assumes "t \<noteq> - (2 ^ 63)"
  shows "duration t =
           \<lparr>days = word_of_int (\<bar>sint t\<bar> div 86400),
            hours = word_of_int (\<bar>sint t\<bar> mod 86400 div 3600),
            minutes = word_of_int (\<bar>sint t\<bar> mod 86400 mod 3600 div 60),
            seconds = word_of_int (\<bar>sint t\<bar> mod 86400 mod 3600 mod 60),
            sign = (if sint t < 0 then - 1 else 1)\<rparr>
         \<and> represented_seconds (duration t) = sint t
         \<and> set_duration (duration t) = t
         \<and> duration 8210542
             = \<lparr>days = 95, hours = 0, minutes = 42, seconds = 22, sign = 1\<rparr>
         \<and> toString_duration (duration 8210542) = Some ''D95#00:42:22''
         \<and> set_duration (fromDurationString ''D95#00:42:22'') = 8210542"
proof -
  have d: "duration 8210542 = \<lparr>days = 95, hours = 0, minutes = 42, seconds = 22, sign = 1\<rparr>"
    by (simp add: duration_def sdiv_w_def smod_w_def word_sless_alt)
  have s: "toString_duration \<lparr>days = 95, hours = 0, minutes = 42, seconds = 22, sign = 1\<rparr>
             = Some ''D95#00:42:22''"
    by code_simp
  have p: "fromDurationString ''D95#00:42:22''
             = \<lparr>days = 95, hours = 0, minutes = 42, seconds = 22, sign = 1\<rparr>"
    by code_simp
  have r: "set_duration \<lparr>days = 95, hours = 0, minutes = 42, seconds = 22, sign = 1\<rparr> = 8210542"
    by (simp add: set_duration_def set_time_def word_sless_alt)
  have t: "toString_duration (duration 8210542) = Some ''D95#00:42:22''"
    by (simp only: d s)
  have q: "set_duration (fromDurationString ''D95#00:42:22'') = 8210542"
    by (simp only: p r)
  show ?thesis
    using duration_decomposes [OF assms] duration_represents [OF assms]
      set_duration_duration [OF assms] d t q
    by (intro conjI)
qed

theorem C8_duration_decomposes_witness:
  "duration (- 8210542) = \<lparr>days = 95, hours = 0, minutes = 42, seconds = 22, sign = - 1\<rparr>
   \<and> represented_seconds (duration (- 8210542)) = - 8210542
   \<and> set_duration (duration (- 8210542)) = - 8210542"
proof -
  have ne: "(- 8210542 :: time_t) \<noteq> - (2 ^ 63)" by simp
  note w = C8_duration_decomposes [OF ne]
  have a: "duration (- 8210542)
          = \<lparr>days = word_of_int (\<bar>sint (- 8210542 :: time_t)\<bar> div 86400),
             hours = word_of_int (\<bar>sint (- 8210542 :: time_t)\<bar> mod 86400 div 3600),
             minutes = word_of_int (\<bar>sint (- 8210542 :: time_t)\<bar> mod 86400 mod 3600 div 60),
             seconds = word_of_int (\<bar>sint (- 8210542 :: time_t)\<bar> mod 86400 mod 3600 mod 60),
             sign = (if sint (- 8210542 :: time_t) < 0 then - 1 else 1)\<rparr>"
    using w by (rule conjunct1)
  have b: "represented_seconds (duration (- 8210542)) = sint (- 8210542 :: time_t)"
    using w by (elim conjE)
  have c: "set_duration (duration (- 8210542)) = - 8210542"
    using w by (elim conjE)
  have a': "duration (- 8210542)
              = \<lparr>days = 95, hours = 0, minutes = 42, seconds = 22, sign = - 1\<rparr>"
    unfolding a by simp
  have b': "represented_seconds (duration (- 8210542)) = - 8210542"
    unfolding b by simp
  show ?thesis using a' b' c by (intro conjI)
qed

subsection \<open>Claims about the text codec\<close>

text \<open>
  Claim C3 says that any token other than \<open>STD\<close>, \<open>DST\<close> and \<open>UTC\<close> in the third field is a
  parse error rather than being accepted.  \<open>fromString\<close> of src/cTimeStd.cpp accepts the
  token \<open>XYZ\<close>: it returns the calendar it returns for \<open>UTC\<close>, with \<open>dst = -1\<close>.
\<close>

theorem C3_unknown_token_counterexample:
  "fromString True ''2023-09-20#17:17:38#XYZ#+01:00''
     = Some \<lparr>year = 2023, month = 9, day = 20, hour = 17, minute = 17, second = 38,
             dst = - 1, timeZone = 1, leapSecond = - 1, subZone = 0, picoSeconds = 0,
             dayInWeek = 0, calendarWeek = 0, dayInYear = 0\<rparr>
   \<and> fromString True ''2023-09-20#17:17:38#UTC#+01:00''
     = Some \<lparr>year = 2023, month = 9, day = 20, hour = 17, minute = 17, second = 38,
             dst = - 1, timeZone = 1, leapSecond = - 1, subZone = 0, picoSeconds = 0,
             dayInWeek = 0, calendarWeek = 0, dayInYear = 0\<rparr>"
  by code_simp

text \<open>
  The slip behind claim C3: the \<open>else\<close> of the second \<open>if\<close> overwrites what the first
  stored, so the token \<open>STD\<close> yields \<open>dst = -1\<close> too.
\<close>

lemma fromString_STD:
  "map_option dst (fromString True ''2023-09-20#17:17:38#STD#+01:00'') = Some (- 1)"
  by code_simp

text \<open>
  Claim C3, amended: for every string that does not start with \<open>D\<close> and holds at least 23
  characters, \<open>fromString\<close> of src/cTimeStd.cpp maps the token at the characters 20 to 22
  thus: \<open>DST\<close> yields \<open>dst = 1\<close>, and every token other than \<open>DST\<close> and \<open>STD\<close>, \<open>UTC\<close> as
  well as an unknown one, yields \<open>dst = -1\<close>; no token is a parse error.  (What the token
  \<open>STD\<close> yields is left out.)
\<close>

theorem C3_dst_token:
  assumes "s ! 0 \<noteq> CHR ''D''" and "23 \<le> length s"
    and "tok = c_str [s ! 20, s ! 21, s ! 22]" and "tok \<noteq> ''STD''"
  shows "map_option dst (fromString lenient s) = Some (if tok = ''DST'' then 1 else - 1)"
  using assms by (auto simp add: fromString_def c_str_at_def Let_def)

theorem C3_dst_token_witness:
  "map_option dst (fromString True ''2023-09-20#17:17:38#DST#+01:00'') = Some 1
   \<and> map_option dst (fromString True ''2023-09-20#17:17:38#UTC#+00:00'') = Some (- 1)"
proof -
  have a: "map_option dst (fromString True ''2023-09-20#17:17:38#DST#+01:00'')
             = Some (if ''DST'' = ''DST'' then 1 else - 1)"
    by (rule C3_dst_token) (simp_all add: c_str_def)
  have b: "map_option dst (fromString True ''2023-09-20#17:17:38#UTC#+00:00'')
             = Some (if ''UTC'' = ''DST'' then 1 else - 1)"
    by (rule C3_dst_token) (simp_all add: c_str_def)
  show ?thesis using a b by simp
qed

text \<open>
  Claim C4 says that a duration parse of a string that does not start with \<open>D\<close> returns
  a sentinel invalid duration rather than a valid-looking zero value.
  \<open>fromDurationString\<close> returns \<open>stDuration_Ini\<close> for a calendar string: the four
  magnitudes \<open>0\<close> and the sign \<open>1\<close>, which is what it returns for \<open>D0#00:00:00\<close>.
\<close>

theorem C4_zero_duration_counterexample:
  "fromDurationString ''2023-09-20#17:17:38#DST#+01:00''
     = \<lparr>days = 0, hours = 0, minutes = 0, seconds = 0, sign = 1\<rparr>
   \<and> fromDurationString ''D0#00:00:00''
     = \<lparr>days = 0, hours = 0, minutes = 0, seconds = 0, sign = 1\<rparr>"
  by code_simp

text \<open>
  Claim C4, amended: for every string whose first character is \<open>D\<close>, \<open>fromString\<close> of
  src/LibCpp/Time/cTimeStd.cpp returns \<open>stCalendar_Invalid\<close> (every member at its
  \<open>*_INVALID\<close> sentinel, but the zone minutes and the pico seconds, which are \<open>0\<close>) and
  \<open>fromString\<close> of src/cTimeStd.cpp returns \<open>stCalendar_Ini\<close>; for every string whose first
  character is not \<open>D\<close>, \<open>fromDurationString\<close> returns \<open>stDuration_Ini\<close>, the zero duration
  with sign \<open>+1\<close>, there being no invalid duration.  None of them throws.
\<close>

theorem C4_first_character_dispatch:
  assumes "c_str_at s 0 = Some (CHR ''D'')" and "c_str_at d 0 \<noteq> Some (CHR ''D'')"
  shows "fromString_LibCpp L s fmt = stCalendar_Invalid L
         \<and> fromString lenient s = Some stCalendar_Ini
         \<and> fromDurationString d = stDuration_Ini"
  using assms by (simp add: fromString_LibCpp_def fromString_def fromDurationString_def)

theorem C4_first_character_dispatch_witness:
  "fromString_LibCpp LibOb_sample ''D95#00:42:22'' [] = stCalendar_Invalid LibOb_sample
   \<and> fromString True ''D95#00:42:22'' = Some stCalendar_Ini
   \<and> fromDurationString ''2023-09-20#17:17:38#DST#+01:00'' = stDuration_Ini"
  by (rule C4_first_character_dispatch) (simp_all add: c_str_at_def)

end
